theory Spec2Isabelle
  imports Complex_Main
begin

section \<open>Python strings\<close>

text \<open>
  Reads, tags and primers are ASCII text, modelled as \<open>string\<close>. \<open>str.find\<close> returns the
  lowest index at which the pattern occurs and \<open>-1\<close> when it does not occur; the empty
  pattern is found at index 0.
\<close>

fun str_find :: "string \<Rightarrow> string \<Rightarrow> int" where
  "str_find [] sub = (if sub = [] then 0 else - 1)"
| "str_find (c # s) sub =
     (if take (length sub) (c # s) = sub then 0
      else (let r = str_find s sub in if r = - 1 then - 1 else r + 1))"

definition upper_char :: "char \<Rightarrow> char" where
  "upper_char c =
     (let n = (of_char c :: nat) in if 97 \<le> n \<and> n \<le> 122 then char_of (n - 32) else c)"

definition upper :: "string \<Rightarrow> string" where
  "upper s = map upper_char s"

definition is_space :: "char \<Rightarrow> bool" where
  "is_space c = (let n = (of_char c :: nat) in (9 \<le> n \<and> n \<le> 13) \<or> (28 \<le> n \<and> n \<le> 32))"

definition strip :: "string \<Rightarrow> string" where
  "strip s = rev (dropWhile is_space (rev (dropWhile is_space s)))"

section \<open>Counters and insertion-ordered dictionaries\<close>

text \<open>
  A \<open>collections.Counter\<close> is a dictionary that remembers the order in which keys were first
  inserted: an association list. \<open>c[k] += 1\<close> bumps an existing key in place and appends a
  new key at the end. \<open>most_common(1)\<close> yields the first entry, in insertion order, that
  carries the largest count, and the empty list on an empty counter.
\<close>

type_synonym 'k counter = "('k \<times> nat) list"

fun counter_inc :: "'k counter \<Rightarrow> 'k \<Rightarrow> 'k counter" where
  "counter_inc [] k = [(k, 1)]"
| "counter_inc ((k', n) # c) k =
     (if k' = k then (k', n + 1) # c else (k', n) # counter_inc c k)"

fun counter_get :: "'k counter \<Rightarrow> 'k \<Rightarrow> nat" where
  "counter_get [] k = 0"
| "counter_get ((k', n) # c) k = (if k' = k then n else counter_get c k)"

definition counter_total :: "'k counter \<Rightarrow> nat" where
  "counter_total c = sum_list (map snd c)"

fun most_common1 :: "'k counter \<Rightarrow> ('k \<times> nat) option" where
  "most_common1 [] = None"
| "most_common1 ((k, n) # c) =
     (case most_common1 c of
        None \<Rightarrow> Some (k, n)
      | Some (k', n') \<Rightarrow> if n' > n then Some (k', n') else Some (k, n))"

text \<open>\<open>d[k] = v\<close> on an insertion-ordered \<open>dict\<close>: an existing key keeps its place.\<close>

fun dict_set :: "('k \<times> 'v) list \<Rightarrow> 'k \<Rightarrow> 'v \<Rightarrow> ('k \<times> 'v) list" where
  "dict_set [] k v = [(k, v)]"
| "dict_set ((k', v') # d) k v =
     (if k' = k then (k', v) # d else (k', v') # dict_set d k v)"

section \<open>Structural scanner (\<open>metatrimx_core.py\<close>)\<close>

type_synonym sample = "string \<times> string"

record scan_state =
  stats_pos :: "string \<rightharpoonup> int counter"
  stats_gap :: "string \<rightharpoonup> int counter"

text \<open>\<open>tag_to_sample = {s[1].upper(): s[0] for s in samples_list}\<close> and its key list.\<close>

definition tag_to_sample :: "sample list \<Rightarrow> (string \<times> string) list" where
  "tag_to_sample samples_list = fold (\<lambda>s d. dict_set d (upper (snd s)) (fst s)) samples_list []"

definition check_tags :: "sample list \<Rightarrow> string list" where
  "check_tags samples_list = map fst (tag_to_sample samples_list)"

text \<open>Seed A is the first six bases of a primer, seed B the bases 7 to 12.\<close>

fun make_seeds :: "string list \<Rightarrow> (string \<times> string) list" where
  "make_seeds [] = []"
| "make_seeds (p # ps) =
     (if p \<noteq> [] \<and> length p \<ge> 12
      then (upper (take 6 p), upper (take 6 (drop 6 p))) # make_seeds ps
      else make_seeds ps)"

text \<open>
  The value of \<open>gap_idx\<close> after the two \<open>find\<close> calls of one turn of the seed loop: the
  position of seed A, or else the position of seed B moved back by the fixed six bases.
\<close>

definition seed_gap_idx :: "string \<Rightarrow> string \<times> string \<Rightarrow> int" where
  "seed_gap_idx search_window seed =
     (let gap_idx = str_find search_window (fst seed) in
      if gap_idx = - 1 then
        (let match_b = str_find search_window (snd seed) in
         if match_b \<noteq> - 1 then match_b - 6 else gap_idx)
      else gap_idx)"

text \<open>
  The seed loop: \<open>Some final_gap\<close> at the first seed that passes the test
  \<open>gap_idx != -1 and gap_idx >= -5\<close> (the \<open>break\<close>), \<open>None\<close> when \<open>found_primer\<close> stays
  false.
\<close>

fun seed_loop :: "string \<Rightarrow> (string \<times> string) list \<Rightarrow> int option" where
  "seed_loop search_window [] = None"
| "seed_loop search_window (seed # seeds) =
     (let gap_idx = seed_gap_idx search_window seed in
      if gap_idx \<noteq> - 1 \<and> gap_idx \<ge> - 5 then Some (max 0 gap_idx)
      else seed_loop search_window seeds)"

text \<open>The key that the tag hit adds to the gap histogram.\<close>

definition gap_key :: "string \<Rightarrow> (string \<times> string) list \<Rightarrow> int" where
  "gap_key search_window seeds =
     (case seed_loop search_window seeds of Some final_gap \<Rightarrow> final_gap | None \<Rightarrow> - 1)"

text \<open>
  The tag loop: the first tag of the list whose first occurrence in the leading window
  starts at offset at most 10 (the loop \<open>break\<close>s there).
\<close>

fun tag_loop :: "string list \<Rightarrow> string \<Rightarrow> (string \<times> int) option" where
  "tag_loop [] start_region = None"
| "tag_loop (tag # tags) start_region =
     (let tag_pos = str_find start_region tag in
      if tag_pos \<noteq> - 1 \<and> tag_pos \<le> 10 then Some (tag, tag_pos)
      else tag_loop tags start_region)"

text \<open>
  The body run for every sequence line. The boolean of the result says that a \<open>KeyError\<close>
  was raised (a sample id without a counter in one of the two dictionaries); the state is
  returned as the exception leaves it, since the counters are mutated in place.
\<close>

definition scan_read ::
  "(string \<times> string) list \<Rightarrow> (string \<times> string) list \<Rightarrow> string \<Rightarrow> scan_state
     \<Rightarrow> scan_state \<times> bool" where
  "scan_read t2s seeds line st =
     (let seq = upper (strip line);
          start_region = take 60 seq
      in case tag_loop (map fst t2s) start_region of
           None \<Rightarrow> (st, False)
         | Some (tag, tag_pos) \<Rightarrow>
             (case map_of t2s tag of
                None \<Rightarrow> (st, True)
              | Some sid \<Rightarrow>
                 (case stats_pos st sid of
                    None \<Rightarrow> (st, True)
                  | Some cp \<Rightarrow>
                     (let st1 = st\<lparr>stats_pos := (stats_pos st)(sid \<mapsto> counter_inc cp tag_pos)\<rparr>;
                          tag_end = nat tag_pos + length tag;
                          search_window = take 30 (drop tag_end start_region)
                      in case stats_gap st1 sid of
                           None \<Rightarrow> (st1, True)
                         | Some cg \<Rightarrow>
                            (st1\<lparr>stats_gap :=
                                   (stats_gap st1)(sid \<mapsto> counter_inc cg (gap_key search_window seeds))\<rparr>,
                             False)))))"

text \<open>
  The loop over the lines of the file: \<open>i\<close> is the line index of \<open>enumerate\<close>,
  \<open>reads_checked\<close> the running count. Only every fourth line, starting at index 1, is a
  sequence line; the loop stops after 10000 of them. A \<open>KeyError\<close> leaves the loop through
  the bare \<open>except: pass\<close>.
\<close>

fun scan_lines ::
  "(string \<times> string) list \<Rightarrow> (string \<times> string) list \<Rightarrow> nat \<Rightarrow> nat \<Rightarrow> string list
     \<Rightarrow> scan_state \<Rightarrow> nat \<times> scan_state" where
  "scan_lines t2s seeds i reads_checked [] st = (reads_checked, st)"
| "scan_lines t2s seeds i reads_checked (line # rest) st =
     (if i mod 4 = 1 then
        (let rc = reads_checked + 1;
             (st', raised) = scan_read t2s seeds line st
         in if raised then (rc, st')
            else if rc \<ge> 10000 then (rc, st')
            else scan_lines t2s seeds (i + 1) rc rest st')
      else scan_lines t2s seeds (i + 1) reads_checked rest st)"

text \<open>
  A read file is \<open>None\<close> when opening it raises (missing, unreadable) and the list of its
  lines otherwise. A file whose reading fails part-way behaves as the file cut at that
  line, because the bare \<open>except\<close> swallows the exception and keeps the counts made so far.
\<close>

definition scan_file_structure ::
  "string list option \<Rightarrow> sample list \<Rightarrow> string list \<Rightarrow> scan_state \<Rightarrow> nat \<times> scan_state" where
  "scan_file_structure file samples_list primer_list st =
     (case file of
        None \<Rightarrow> (0, st)
      | Some lines \<Rightarrow>
          scan_lines (tag_to_sample samples_list) (make_seeds primer_list) 0 0 lines st)"

text \<open>The exceptions that the modelled code can raise.\<close>

datatype error =
  KeyError | ValueError | IndexError | EOFError | AttributeError | OtherError
  | KeyboardInterrupt | SystemExit int

text \<open>
  The exceptions of class \<open>Exception\<close>, the ones that a handler \<open>except Exception\<close>
  catches. \<open>KeyboardInterrupt\<close> and \<open>SystemExit\<close> derive from \<open>BaseException\<close> only.
\<close>

definition is_Exception :: "error \<Rightarrow> bool" where
  "is_Exception e = (case e of KeyboardInterrupt \<Rightarrow> False | SystemExit n \<Rightarrow> False | _ \<Rightarrow> True)"

record report_entry =
  tag :: string
  tag_shift_mode :: int
  primer_gap_mode :: int
  raw_pos_counts :: "int counter"
  raw_gap_counts :: "int counter"

text \<open>
  \<open>export_scan_data_to_json\<close> builds the dictionary \<open>data\<close>, one entry per sample; only
  the dictionary is modelled, not the file it is dumped to. The dominant value is the key
  of \<open>most_common(1)\<close>, with the defaults 0 and \<open>-1\<close> on an empty counter.
\<close>

fun export_loop ::
  "sample list \<Rightarrow> scan_state \<Rightarrow> (string \<rightharpoonup> report_entry) \<Rightarrow> error + (string \<rightharpoonup> report_entry)" where
  "export_loop [] st data = Inr data"
| "export_loop (s # ss) st data =
     (let sid = fst s in
      case stats_pos st sid of
        None \<Rightarrow> Inl KeyError
      | Some cp \<Rightarrow>
         (case stats_gap st sid of
            None \<Rightarrow> Inl KeyError
          | Some cg \<Rightarrow>
             (let shift = (case most_common1 cp of Some (k, n) \<Rightarrow> k | None \<Rightarrow> 0);
                  gap = (case most_common1 cg of Some (k, n) \<Rightarrow> k | None \<Rightarrow> - 1)
              in export_loop ss st
                   (data(sid \<mapsto> \<lparr>tag = snd s, tag_shift_mode = shift, primer_gap_mode = gap,
                                 raw_pos_counts = cp, raw_gap_counts = cg\<rparr>)))))"

definition export_scan_data_to_json ::
  "sample list \<Rightarrow> scan_state \<Rightarrow> error + (string \<rightharpoonup> report_entry)" where
  "export_scan_data_to_json samples st = export_loop samples st Map.empty"

text \<open>The module-level settings read from the environment.\<close>

record config =
  AUTO_DIAGNOSE :: string
  RUN_MODE :: string
  P_FWD_1 :: string
  P_FWD_2 :: string
  P_REV_1 :: string
  P_REV_2 :: string

text \<open>\<open>{s[0]: Counter() for s in samples_list}\<close> and \<open>{s[0]: mode for s in samples_list}\<close>.\<close>

definition init_stats :: "sample list \<Rightarrow> (string \<rightharpoonup> int counter)" where
  "init_stats samples_list = fold (\<lambda>s m. m(fst s \<mapsto> [])) samples_list Map.empty"

definition strategy_dict :: "sample list \<Rightarrow> string \<Rightarrow> (string \<rightharpoonup> string)" where
  "strategy_dict samples_list mode = fold (\<lambda>s m. m(fst s \<mapsto> mode)) samples_list Map.empty"

text \<open>
  The interactive menu. Each call of \<open>input\<close> consumes one event: a typed line or a
  keyboard interrupt (which exits with status 0); when the events run out, \<open>input\<close> raises
  \<open>EOFError\<close>, which the loop does not catch. Any other line asks again.
\<close>

datatype input_event = Typed string | Interrupt

fun menu :: "sample list \<Rightarrow> input_event list \<Rightarrow> error + (string \<rightharpoonup> string)" where
  "menu samples_list [] = Inl EOFError"
| "menu samples_list (Interrupt # rest) = Inl (SystemExit 0)"
| "menu samples_list (Typed choice # rest) =
     (if choice = ''1'' then Inr (strategy_dict samples_list ''strict'')
      else if choice = ''2'' then Inr (strategy_dict samples_list ''universal'')
      else if choice = ''3'' then Inr (strategy_dict samples_list ''rescue'')
      else menu samples_list rest)"

record raw_scan =
  scanned :: nat
  final_stats :: scan_state
  scan_report :: "string \<rightharpoonup> report_entry"
  decision :: "(string \<rightharpoonup> string) option"

definition scan_raw_data ::
  "config \<Rightarrow> input_event list \<Rightarrow> sample list \<Rightarrow> string list option \<Rightarrow> string list option
     \<Rightarrow> error + raw_scan" where
  "scan_raw_data cfg inputs samples_list fwd_file rev_file =
     (let st0 = \<lparr>stats_pos = init_stats samples_list, stats_gap = init_stats samples_list\<rparr>;
          fwds = filter (\<lambda>p. p \<noteq> []) [P_FWD_1 cfg, P_FWD_2 cfg];
          revs = filter (\<lambda>p. p \<noteq> []) [P_REV_1 cfg, P_REV_2 cfg];
          (c1, st1) = scan_file_structure fwd_file samples_list fwds st0;
          (c2, st2) = scan_file_structure rev_file samples_list revs st1
      in case export_scan_data_to_json samples_list st2 of
           Inl e \<Rightarrow> Inl e
         | Inr data \<Rightarrow>
            (if RUN_MODE cfg = ''1''
             then Inr \<lparr>scanned = c1 + c2, final_stats = st2, scan_report = data, decision = None\<rparr>
             else (case menu samples_list inputs of
                     Inl e \<Rightarrow> Inl e
                   | Inr d \<Rightarrow> Inr \<lparr>scanned = c1 + c2, final_stats = st2, scan_report = data,
                                   decision = Some d\<rparr>)))"

text \<open>
  The part of \<open>main\<close> that fixes the mode of every sample: \<open>None\<close> when \<open>main\<close> returns
  after the scan (run mode 1), else the list of \<open>(sample, tag, strategy)\<close> in the order of
  the processing loop, with \<open>strategy = sample_strategies.get(sample, "universal")\<close>.
\<close>

definition dict_get :: "('k \<rightharpoonup> 'v) \<Rightarrow> 'k \<Rightarrow> 'v \<Rightarrow> 'v" where
  "dict_get d k dflt = (case d k of Some v \<Rightarrow> v | None \<Rightarrow> dflt)"

definition main_strategies ::
  "config \<Rightarrow> input_event list \<Rightarrow> sample list \<Rightarrow> string list option \<Rightarrow> string list option
     \<Rightarrow> error + (string \<times> string \<times> string) list option" where
  "main_strategies cfg inputs samples fast_r1 fast_r2 =
     (if AUTO_DIAGNOSE cfg = ''TRUE'' then
        (case scan_raw_data cfg inputs samples fast_r1 fast_r2 of
           Inl e \<Rightarrow> Inl e
         | Inr r \<Rightarrow>
            (if RUN_MODE cfg = ''1'' then Inr None
             else (case decision r of
                     None \<Rightarrow> Inl AttributeError
                   | Some sample_strategies \<Rightarrow>
                       Inr (Some (map (\<lambda>s. (fst s, snd s, dict_get sample_strategies (fst s) ''universal''))
                                   samples)))))
      else
        (let sample_strategies = strategy_dict samples ''strict'' in
         Inr (Some (map (\<lambda>s. (fst s, snd s, dict_get sample_strategies (fst s) ''universal''))
                     samples))))"

subsection \<open>Notions used to state the scanner's properties\<close>

text \<open>
  Every sample id has a counter in both dictionaries, as \<open>scan_raw_data\<close> builds them.
\<close>

definition have_counters :: "sample list \<Rightarrow> scan_state \<Rightarrow> bool" where
  "have_counters samples st \<longleftrightarrow>
     fst ` set samples \<subseteq> dom (stats_pos st) \<and> fst ` set samples \<subseteq> dom (stats_gap st)"

text \<open>A sample without position observations has no gap observations either.\<close>

definition gap_follows_pos :: "scan_state \<Rightarrow> bool" where
  "gap_follows_pos st \<longleftrightarrow> (\<forall>sid. stats_pos st sid = Some [] \<longrightarrow> stats_gap st sid = Some [])"

text \<open>Every gap key of \<open>st\<close> is the sentinel or was a key of the same sample in \<open>st0\<close>.\<close>

definition gap_keys_from :: "scan_state \<Rightarrow> scan_state \<Rightarrow> bool" where
  "gap_keys_from st0 st \<longleftrightarrow>
     (\<forall>sid c k. stats_gap st sid = Some c \<longrightarrow> k \<in> fst ` set c \<longrightarrow>
        k = - 1 \<or> (\<exists>c0. stats_gap st0 sid = Some c0 \<and> k \<in> fst ` set c0))"

text \<open>
  The raw offset that a seed pair yields in a window, kept apart from "no match": the
  position of seed A when it occurs, else the position of seed B less six when that
  occurs, else nothing. The code folds "nothing" and the raw offset \<open>-1\<close> into the one
  value \<open>gap_idx = -1\<close>.
\<close>

definition raw_offset :: "string \<Rightarrow> string \<times> string \<Rightarrow> int option" where
  "raw_offset search_window seed =
     (if str_find search_window (fst seed) \<noteq> - 1 then Some (str_find search_window (fst seed))
      else if str_find search_window (snd seed) \<noteq> - 1
           then Some (str_find search_window (snd seed) - 6)
           else None)"

text \<open>A seed pair that matches nowhere, or only with a raw offset below \<open>-5\<close>.\<close>

definition skipped :: "string \<Rightarrow> string \<times> string \<Rightarrow> bool" where
  "skipped search_window seed \<longleftrightarrow>
     (case raw_offset search_window seed of None \<Rightarrow> True | Some g \<Rightarrow> g < - 5)"

text \<open>The read on this line is attributed to the sample \<open>sid\<close>.\<close>

definition hits_sample :: "sample list \<Rightarrow> string \<Rightarrow> string \<Rightarrow> bool" where
  "hits_sample samples sid line \<longleftrightarrow>
     (case tag_loop (check_tags samples) (take 60 (upper (strip line))) of
        None \<Rightarrow> False
      | Some (tg, p) \<Rightarrow> map_of (tag_to_sample samples) tg = Some sid)"

definition file_lines :: "string list option \<Rightarrow> string list" where
  "file_lines fl = (case fl of None \<Rightarrow> [] | Some lines \<Rightarrow> lines)"

text \<open>A report entry agrees with the counters of its sample.\<close>

definition entry_ok :: "scan_state \<Rightarrow> string \<Rightarrow> report_entry \<Rightarrow> bool" where
  "entry_ok st sid e \<longleftrightarrow>
     stats_pos st sid = Some (raw_pos_counts e) \<and> stats_gap st sid = Some (raw_gap_counts e) \<and>
     tag_shift_mode e = (case most_common1 (raw_pos_counts e) of Some (k, n) \<Rightarrow> k | None \<Rightarrow> 0) \<and>
     primer_gap_mode e = (case most_common1 (raw_gap_counts e) of Some (k, n) \<Rightarrow> k | None \<Rightarrow> - 1)"

section \<open>Parameter predictor (\<open>metatrimx_compiler.py\<close>)\<close>

text \<open>
  Python floats are modelled as real numbers. \<open>round(x, nd)\<close> rounds to the nearest
  multiple of \<open>10^-nd\<close>, ties to the even neighbour; \<open>int(x)\<close> truncates towards zero.
\<close>

definition py_round :: "real \<Rightarrow> nat \<Rightarrow> real" where
  "py_round x nd =
     (let y = x * 10 ^ nd; f = \<lfloor>y\<rfloor>
      in real_of_int (if y - of_int f < 1 / 2 then f
                      else if y - of_int f > 1 / 2 then f + 1
                      else if even f then f else f + 1) / 10 ^ nd)"

definition py_int :: "real \<Rightarrow> int" where
  "py_int x = (if 0 \<le> x then \<lfloor>x\<rfloor> else \<lceil>x\<rceil>)"

text \<open>
  The seven parameters in the order of the returned tuple: demux error rate, trim error
  rate, merge max diffs, max expected errors, min length, quality cutoff, min overlap.
\<close>

type_synonym prescription = "real \<times> real \<times> int \<times> real \<times> int \<times> int \<times> int"

text \<open>
  The regression artifact is opaque: its \<open>predict\<close> maps rows of features to rows of
  outputs or raises. The brain file is missing, or \<open>joblib.load\<close> raises or yields a model.
\<close>

type_synonym model = "real list list \<Rightarrow> error + real list list"

datatype brain_file = Missing | Stored "error + model"

text \<open>
  \<open>log(msg, level)\<close> and \<open>print\<close> write a line to the console. The console is a
  parameter: for each kind of line (the level of \<open>log\<close>, or \<open>PRINT\<close> for a bare \<open>print\<close>)
  it accepts the line or raises. \<open>say\<close> writes one line and goes on with the rest when the
  line was accepted.
\<close>

type_synonym console = "string \<Rightarrow> error option"

definition say :: "console \<Rightarrow> string \<Rightarrow> error + 'a \<Rightarrow> error + 'a" where
  "say console kind rest = (case console kind of Some e \<Rightarrow> Inl e | None \<Rightarrow> rest)"

text \<open>
  The body of the \<open>try\<close> block, statement by statement: load, log the input, predict,
  take row 0, unpack the seven targets, log and print the prescription, return it. Every
  exception it can raise is an \<open>Inl\<close>.
\<close>

definition brain_inference ::
  "console \<Rightarrow> error + model \<Rightarrow> real \<Rightarrow> int \<Rightarrow> int \<Rightarrow> int \<Rightarrow> error + prescription" where
  "brain_inference console loaded q30 shift gap len =
     (case loaded of
        Inl e \<Rightarrow> Inl e
      | Inr model \<Rightarrow>
         say console ''AI''
           (case model [[q30, of_int shift, of_int gap, of_int len]] of
              Inl e \<Rightarrow> Inl e
            | Inr rows \<Rightarrow>
               (case rows of
                  [] \<Rightarrow> Inl IndexError
                | prediction # rest \<Rightarrow>
                   if length prediction < 7 then Inl IndexError
                   else say console ''SUCCESS''
                          (say console ''PRINT''
                            (say console ''PRINT''
                              (say console ''PRINT''
                                (Inr (py_round (prediction ! 0) 2, py_round (prediction ! 1) 2,
                                      py_int (prediction ! 2), py_round (prediction ! 3) 1,
                                      py_int (prediction ! 4), py_int (prediction ! 5),
                                      py_int (prediction ! 6)))))))))"

text \<open>
  \<open>consult_brain\<close>: the missing-file branch logs and returns the defaults; the handler
  \<open>except Exception\<close> catches the exceptions of class \<open>Exception\<close> only, logs a warning and
  returns the defaults; any other exception of the \<open>try\<close> body, and any exception raised
  by the two log calls outside it, reaches the caller.
\<close>

definition consult_brain ::
  "console \<Rightarrow> brain_file \<Rightarrow> real \<Rightarrow> int \<Rightarrow> int \<Rightarrow> int \<Rightarrow> error + prescription" where
  "consult_brain console brain q30 shift gap len =
     (case brain of
        Missing \<Rightarrow> say console ''ERROR'' (Inr (0.15, 0.2, 10, 2.0, 50, 20, 10))
      | Stored loaded \<Rightarrow>
         (case brain_inference console loaded q30 shift gap len of
            Inr p \<Rightarrow> Inr p
          | Inl e \<Rightarrow>
             if is_Exception e then say console ''WARN'' (Inr (0.15, 0.2, 10, 2.0, 50, 20, 10))
             else Inl e))"

section \<open>Ensemble classifier (\<open>metatrimx_neural.py\<close>)\<close>

text \<open>
  \<open>calculate_entropy\<close>: the counts of the distinct characters, in the order of their first
  occurrence, each contributing \<open>- p * log2 p\<close>.
\<close>

definition calculate_entropy :: "string \<Rightarrow> real" where
  "calculate_entropy seq =
     (let cnt = fold (\<lambda>c cn. counter_inc cn c) seq [];
          len = length seq
      in fold (\<lambda>count entropy. entropy - (real count / real len) * log 2 (real count / real len))
           (map snd cnt) 0)"

definition extract_features :: "string \<Rightarrow> real list" where
  "extract_features s =
     (let seq = upper s;
          gc = (if seq \<noteq> []
                then real (count_list seq CHR ''G'' + count_list seq CHR ''C'') / real (length seq)
                else 0)
      in [real (length seq), gc, calculate_entropy seq])"

text \<open>\<open>[seq[i:i+k] for i in range(len(seq)-k+1)]\<close>; the range is empty when \<open>len(seq) < k\<close>.\<close>

definition extract_kmers :: "nat \<Rightarrow> string \<Rightarrow> string list" where
  "extract_kmers k seq = map (\<lambda>i. take k (drop i seq)) [0 ..< length seq + 1 - k]"

text \<open>
  The synthetic noise: one sequence of 200 draws from \<open>ACGT\<close> for every input sequence.
  The random generator is a parameter, the stream \<open>rnd\<close> of its draws.
\<close>

definition noise_seqs :: "(nat \<Rightarrow> nat) \<Rightarrow> nat \<Rightarrow> string list" where
  "noise_seqs rnd n = map (\<lambda>i. map (\<lambda>j. ''ACGT'' ! (rnd (200 * i + j) mod 4)) [0 ..< 200]) [0 ..< n]"

text \<open>
  \<open>top_limit = max(20, int(len(sequences) * 0.2))\<close>. The product is a float; truncating it
  gives \<open>n div 5\<close> for every list length a machine can hold (the double nearest to 0.2
  exceeds 0.2 by less than one part in \<open>2^54\<close>).
\<close>

definition top_limit :: "string list \<Rightarrow> nat" where
  "top_limit sequences = max 20 (length sequences div 5)"

definition X_features :: "string list \<Rightarrow> real list list" where
  "X_features sequences = map extract_features sequences"

definition X_noise :: "(nat \<Rightarrow> nat) \<Rightarrow> string list \<Rightarrow> real list list" where
  "X_noise rnd sequences = map extract_features (noise_seqs rnd (length sequences))"

definition X_train :: "(nat \<Rightarrow> nat) \<Rightarrow> string list \<Rightarrow> real list list" where
  "X_train rnd sequences = take (top_limit sequences) (X_features sequences) @ X_noise rnd sequences"

definition y_train :: "(nat \<Rightarrow> nat) \<Rightarrow> string list \<Rightarrow> real list" where
  "y_train rnd sequences =
     replicate (top_limit sequences) 1 @ replicate (length (X_noise rnd sequences)) 0"

text \<open>
  The learning library is outside the repository and enters as two parameters:
  \<open>forest X y Z\<close> fits the random forest on rows \<open>X\<close> with labels \<open>y\<close> and returns the
  probability of class 1 for the rows \<open>Z\<close>; \<open>novelty K\<close> embeds the k-mer lists \<open>K\<close>,
  projects them, fits the one-class machine and returns its decision values. Either may
  raise.
\<close>

record ml_backend =
  forest :: "real list list \<Rightarrow> real list \<Rightarrow> real list list \<Rightarrow> error + real list"
  novelty :: "string list list \<Rightarrow> error + real list"

text \<open>
  \<open>rf_model.fit(X_train, y_train)\<close> followed by \<open>predict_proba(X_features)[:, 1]\<close>. The
  library validates its input first: as many labels as rows, or \<open>ValueError\<close>.
\<close>

definition rf_probs ::
  "ml_backend \<Rightarrow> real list list \<Rightarrow> real list \<Rightarrow> real list list \<Rightarrow> error + real list" where
  "rf_probs ml X y Z = (if length X \<noteq> length y then Inl ValueError else forest ml X y Z)"

definition svm_probs :: "real list \<Rightarrow> real list" where
  "svm_probs svm_dists = map (\<lambda>d. 1 / (1 + exp (- d))) svm_dists"

text \<open>The consensus loop over \<open>enumerate(ids)\<close>; an index beyond either score list raises.\<close>

fun ensemble_loop ::
  "real list \<Rightarrow> real list \<Rightarrow> nat \<Rightarrow> string list \<Rightarrow> (string \<rightharpoonup> real) \<Rightarrow> error + (string \<rightharpoonup> real)" where
  "ensemble_loop rf svm i [] results = Inr results"
| "ensemble_loop rf svm i (pid # ids) results =
     (if i < length rf \<and> i < length svm
      then (let final_score = (rf ! i + svm ! i) / 2
            in ensemble_loop rf svm (i + 1) ids (results(pid \<mapsto> final_score)))
      else Inl IndexError)"

definition run_hybrid_engine ::
  "bool \<Rightarrow> ml_backend \<Rightarrow> (nat \<Rightarrow> nat) \<Rightarrow> string list \<Rightarrow> string list \<Rightarrow> error + (string \<rightharpoonup> real)" where
  "run_hybrid_engine SKLEARN_AVAILABLE ml rnd sequences ids =
     (if \<not> SKLEARN_AVAILABLE then Inr Map.empty
      else (case rf_probs ml (X_train rnd sequences) (y_train rnd sequences) (X_features sequences) of
              Inl e \<Rightarrow> Inl e
            | Inr rf \<Rightarrow>
               (case novelty ml (map (extract_kmers 5) sequences) of
                  Inl e \<Rightarrow> Inl e
                | Inr svm_dists \<Rightarrow> ensemble_loop rf (svm_probs svm_dists) 0 ids Map.empty)))"

text \<open>
  The FASTA reader: a header line starts a record, the other lines are stripped and
  joined. The loop state is \<open>(header, seq, ids, seqs)\<close>.
\<close>

fun fasta_loop ::
  "string list \<Rightarrow> string \<times> string \<times> string list \<times> string list
     \<Rightarrow> string \<times> string \<times> string list \<times> string list" where
  "fasta_loop [] acc = acc"
| "fasta_loop (line # rest) (header, seq, ids, seqs) =
     (if take 1 line = ''>'' then
        (if header \<noteq> []
         then fasta_loop rest
                (strip line, [], ids @ [strip (filter (\<lambda>c. c \<noteq> CHR ''>'') header)], seqs @ [seq])
         else fasta_loop rest (strip line, [], ids, seqs))
      else fasta_loop rest (header, seq @ strip line, ids, seqs))"

definition parse_fasta :: "string list \<Rightarrow> string list \<times> string list" where
  "parse_fasta lines =
     (case fasta_loop lines ([], [], [], []) of
        (header, seq, ids, seqs) \<Rightarrow>
          if header \<noteq> []
          then (ids @ [strip (filter (\<lambda>c. c \<noteq> CHR ''>'') header)], seqs @ [seq])
          else (ids, seqs))"

text \<open>
  The FASTA file does not exist, or exists and cannot be opened (the exception is not
  caught), or is read as a list of lines.
\<close>

datatype fasta_file = NoFile | Unreadable | Lines "string list"

definition run_ai_classification ::
  "bool \<Rightarrow> ml_backend \<Rightarrow> (nat \<Rightarrow> nat) \<Rightarrow> fasta_file \<Rightarrow> error + (string \<rightharpoonup> real)" where
  "run_ai_classification SKLEARN_AVAILABLE ml rnd fasta =
     (case fasta of
        NoFile \<Rightarrow> Inr Map.empty
      | Unreadable \<Rightarrow> Inl OtherError
      | Lines lines \<Rightarrow>
         (case parse_fasta lines of
            (ids, seqs) \<Rightarrow>
              if seqs = [] then Inr Map.empty
              else run_hybrid_engine SKLEARN_AVAILABLE ml rnd seqs ids))"

section \<open>Example inputs\<close>

definition ex_samples :: "sample list" where
  "ex_samples = [(''S1'', ''ACGTAC''), (''S2'', ''ttgg'')]"

definition ex_state :: scan_state where
  "ex_state = \<lparr>stats_pos = init_stats ex_samples, stats_gap = init_stats ex_samples\<rparr>"

definition ex_line :: string where
  "ex_line = ''ACGTACTTTCCCCCCGGAA''"

definition ex_window :: string where
  "ex_window = ''TTTCCCCCCGGAA''"

definition ex_cfg :: config where
  "ex_cfg = \<lparr>AUTO_DIAGNOSE = ''TRUE'', RUN_MODE = ''2'', P_FWD_1 = ''AAAAAACCCCCCGG'',
              P_FWD_2 = [], P_REV_1 = [], P_REV_2 = []\<rparr>"

definition ex_ml :: ml_backend where
  "ex_ml = \<lparr>forest = (\<lambda>X y Z. Inr (replicate (length Z) (1 / 2))),
            novelty = (\<lambda>K. Inr (replicate (length K) 0))\<rparr>"

definition ex_rnd :: "nat \<Rightarrow> nat" where
  "ex_rnd i = i"


definition ex_failing_model :: model where
  "ex_failing_model rows = Inl ValueError"

definition quiet_console :: console where
  "quiet_console kind = None"

definition broken_console :: console where
  "broken_console kind = Some OtherError"

definition dup_samples :: "sample list" where
  "dup_samples = [(''S1'', ''ACGT''), (''S2'', ''TTGG''), (''S3'', ''acgt'')]"

definition dup_state :: scan_state where
  "dup_state = \<lparr>stats_pos = init_stats dup_samples, stats_gap = init_stats dup_samples\<rparr>"

definition dup_line :: string where
  "dup_line = ''ACGTAAAAAACCCCCCGG''"

section \<open>Properties\<close>

lemma str_find_ge: "- 1 \<le> str_find s sub"
  by (induction s) (auto simp: Let_def)

lemma str_find_nonneg: "str_find s sub \<noteq> - 1 \<Longrightarrow> 0 \<le> str_find s sub"
  using str_find_ge [of s sub] by arith

lemma counter_inc_not_Nil: "counter_inc c k \<noteq> []"
  by (induction c k rule: counter_inc.induct) auto

lemma counter_total_inc: "counter_total (counter_inc c k) = counter_total c + 1"
  by (induction c) (auto simp: counter_total_def)

lemma keys_counter_inc: "fst ` set (counter_inc c k) = insert k (fst ` set c)"
  by (induction c k rule: counter_inc.induct) (auto simp: image_iff)

lemma tag_loop_Some:
  "tag_loop tags r = Some (t, p) \<Longrightarrow>
     0 \<le> p \<and> p \<le> 10 \<and> p = str_find r t \<and>
     (\<exists>pre post. tags = pre @ t # post \<and>
        (\<forall>t' \<in> set pre. str_find r t' = - 1 \<or> 10 < str_find r t'))"
proof (induction tags)
  case Nil
  then show ?case by simp
next
  case (Cons a tags)
  show ?case
  proof (cases "str_find r a \<noteq> - 1 \<and> str_find r a \<le> 10")
    case True
    with Cons.prems have "a = t" "p = str_find r a" by (auto simp: Let_def)
    moreover have "a # tags = [] @ a # tags \<and>
         (\<forall>t' \<in> set []. str_find r t' = - 1 \<or> 10 < str_find r t')" by simp
    ultimately show ?thesis using True str_find_nonneg [of r a] by blast
  next
    case False
    with Cons.prems have "tag_loop tags r = Some (t, p)" by (auto simp: Let_def)
    from Cons.IH [OF this] obtain pre post where
      h: "0 \<le> p" "p \<le> 10" "p = str_find r t" "tags = pre @ t # post"
         "\<forall>t' \<in> set pre. str_find r t' = - 1 \<or> 10 < str_find r t'" by blast
    from h(4,5) False have "a # tags = (a # pre) @ t # post \<and>
         (\<forall>t' \<in> set (a # pre). str_find r t' = - 1 \<or> 10 < str_find r t')" by auto
    with h(1-3) show ?thesis by blast
  qed
qed

lemma tag_loop_mem: "tag_loop tags r = Some (t, p) \<Longrightarrow> t \<in> set tags"
  by (induction tags) (auto simp: Let_def split: if_splits)

lemma dict_set_keys: "fst ` set (dict_set d k v) = insert k (fst ` set d)"
  by (induction d k v rule: dict_set.induct) auto

lemma dict_set_vals: "snd ` set (dict_set d k v) \<subseteq> insert v (snd ` set d)"
  by (induction d k v rule: dict_set.induct) auto

lemma fold_dict_set_vals:
  "snd ` set (fold (\<lambda>s d. dict_set d (f s) (g s)) xs d0) \<subseteq> g ` set xs \<union> snd ` set d0"
proof (induction xs arbitrary: d0)
  case Nil then show ?case by simp
next
  case (Cons x xs)
  show ?case using Cons.IH [of "dict_set d0 (f x) (g x)"] dict_set_vals [of d0 "f x" "g x"]
    by auto
qed

lemma tag_to_sample_vals: "snd ` set (tag_to_sample samples) \<subseteq> fst ` set samples"
  using fold_dict_set_vals [of "\<lambda>s. upper (snd s)" fst samples "[]"]
  by (simp add: tag_to_sample_def)

lemma map_of_mem: "t \<in> set (map fst d) \<Longrightarrow> \<exists>v. map_of d t = Some v \<and> v \<in> snd ` set d"
  by (induction d) (auto simp: image_iff)

lemma hit_counters:
  assumes "have_counters samples st"
    and "tag_loop (check_tags samples) region = Some (tg, p)"
  shows "\<exists>sid cp cg. map_of (tag_to_sample samples) tg = Some sid \<and> sid \<in> fst ` set samples \<and>
           stats_pos st sid = Some cp \<and> stats_gap st sid = Some cg"
proof -
  from assms(2) have "tg \<in> set (map fst (tag_to_sample samples))"
    using tag_loop_mem by (fastforce simp: check_tags_def)
  from map_of_mem [OF this] obtain sid where
    sid: "map_of (tag_to_sample samples) tg = Some sid" "sid \<in> snd ` set (tag_to_sample samples)"
    by blast
  with tag_to_sample_vals have mem: "sid \<in> fst ` set samples" by blast
  with assms(1) obtain cp cg where "stats_pos st sid = Some cp" "stats_gap st sid = Some cg"
    unfolding have_counters_def by blast
  with sid(1) mem show ?thesis by blast
qed

lemma scan_read_at_hit:
  assumes "tag_loop (check_tags samples) (take 60 (upper (strip line))) = Some (tg, p)"
    and "map_of (tag_to_sample samples) tg = Some sid"
    and "stats_pos st sid = Some cp" and "stats_gap st sid = Some cg"
  shows "scan_read (tag_to_sample samples) seeds line st =
             (\<lparr>stats_pos = (stats_pos st)(sid \<mapsto> counter_inc cp p),
               stats_gap = (stats_gap st)(sid \<mapsto> counter_inc cg
                  (gap_key (take 30 (drop (nat p + length tg) (take 60 (upper (strip line))))) seeds))\<rparr>,
              False)"
  using assms by (simp add: scan_read_def check_tags_def Let_def)

lemma scan_read_hit:
  assumes "have_counters samples st"
    and "tag_loop (check_tags samples) (take 60 (upper (strip line))) = Some (tg, p)"
  shows "\<exists>sid cp cg. map_of (tag_to_sample samples) tg = Some sid \<and> sid \<in> fst ` set samples \<and>
           stats_pos st sid = Some cp \<and> stats_gap st sid = Some cg \<and>
           scan_read (tag_to_sample samples) seeds line st =
             (\<lparr>stats_pos = (stats_pos st)(sid \<mapsto> counter_inc cp p),
               stats_gap = (stats_gap st)(sid \<mapsto> counter_inc cg
                  (gap_key (take 30 (drop (nat p + length tg) (take 60 (upper (strip line))))) seeds))\<rparr>,
              False)"
  using hit_counters [OF assms] scan_read_at_hit [OF assms(2)] by blast

lemma scan_read_miss:
  "tag_loop (check_tags samples) (take 60 (upper (strip line))) = None \<Longrightarrow>
   scan_read (tag_to_sample samples) seeds line st = (st, False)"
  by (simp add: scan_read_def check_tags_def)

lemma scan_read_dom:
  "scan_read t2s seeds line st = (st', raised) \<Longrightarrow>
     dom (stats_pos st') = dom (stats_pos st) \<and> dom (stats_gap st') = dom (stats_gap st)"
  by (auto simp: scan_read_def Let_def split: option.splits prod.splits if_splits)

lemma scan_read_have_counters:
  "have_counters samples st \<Longrightarrow> scan_read t2s seeds line st = (st', raised) \<Longrightarrow>
     have_counters samples st'"
  using scan_read_dom [of t2s seeds line st st' raised] by (simp add: have_counters_def)

lemma scan_read_gap_follows_pos:
  "gap_follows_pos st \<Longrightarrow> scan_read t2s seeds line st = (st', raised) \<Longrightarrow> gap_follows_pos st'"
  by (auto simp: scan_read_def Let_def gap_follows_pos_def counter_inc_not_Nil
      split: option.splits prod.splits if_splits)

lemma scan_lines_inv:
  "(\<And>line st st' raised. line \<in> set lines \<Longrightarrow> P st \<Longrightarrow>
        scan_read t2s seeds line st = (st', raised) \<Longrightarrow> P st') \<Longrightarrow>
   P st \<Longrightarrow> scan_lines t2s seeds i rc lines st = (n, st') \<Longrightarrow> P st'"
proof (induction lines arbitrary: i rc st)
  case Nil
  then show ?case by simp
next
  case (Cons line rest)
  have step: "\<And>l a b r. l \<in> set rest \<Longrightarrow> P a \<Longrightarrow> scan_read t2s seeds l a = (b, r) \<Longrightarrow> P b"
    using Cons.prems(1) by (meson list.set_intros(2))
  show ?case
  proof (cases "i mod 4 = 1")
    case False
    with Cons.prems(3) have "scan_lines t2s seeds (i + 1) rc rest st = (n, st')" by simp
    from Cons.IH [OF step Cons.prems(2) this] show ?thesis .
  next
    case True
    obtain st1 raised where r: "scan_read t2s seeds line st = (st1, raised)"
      by (cases "scan_read t2s seeds line st")
    from Cons.prems(1) [OF _ Cons.prems(2) r] have p1: "P st1" by simp
    show ?thesis
    proof (cases "raised \<or> rc + 1 \<ge> 10000")
      case True
      with \<open>i mod 4 = 1\<close> r Cons.prems(3) have "st' = st1" by (auto simp: Let_def split: if_splits)
      with p1 show ?thesis by simp
    next
      case False
      with \<open>i mod 4 = 1\<close> r Cons.prems(3)
      have "scan_lines t2s seeds (i + 1) (rc + 1) rest st1 = (n, st')"
        by (auto simp: Let_def split: if_splits)
      from Cons.IH [OF step p1 this] show ?thesis .
    qed
  qed
qed

lemma scan_file_structure_inv:
  assumes "\<And>t2s seeds line st st' raised. line \<in> set (file_lines fl) \<Longrightarrow>
             P st \<Longrightarrow> scan_read t2s seeds line st = (st', raised) \<Longrightarrow> P st'"
    and "P st" and "scan_file_structure fl samples primers st = (n, st')"
  shows "P st'"
proof (cases fl)
  case None
  with assms(2,3) show ?thesis by (simp add: scan_file_structure_def)
next
  case (Some lines)
  with assms(3) have
    "scan_lines (tag_to_sample samples) (make_seeds primers) 0 0 lines st = (n, st')"
    by (simp add: scan_file_structure_def)
  from scan_lines_inv [of lines P, OF _ assms(2) this] assms(1) Some show ?thesis
    by (simp add: file_lines_def)
qed

lemma scan_read_keeps_empty:
  "\<not> hits_sample samples sid line \<Longrightarrow> stats_pos st sid = Some [] \<Longrightarrow>
     scan_read (tag_to_sample samples) seeds line st = (st', raised) \<Longrightarrow>
     stats_pos st' sid = Some []"
  by (auto simp: scan_read_def hits_sample_def check_tags_def Let_def
      split: option.splits prod.splits if_splits)

lemma seed_loop_nonneg: "seed_loop w seeds = Some g \<Longrightarrow> 0 \<le> g"
  by (induction seeds) (auto simp: Let_def split: if_splits)

lemma gap_key_range: "gap_key w seeds = - 1 \<or> 0 \<le> gap_key w seeds"
  using seed_loop_nonneg [of w seeds] by (auto simp: gap_key_def split: option.splits)

text \<open>
  \<open>str_find\<close> is Python's \<open>str.find\<close>: a result \<open>i \<ge> 0\<close> is the first position at which the
  pattern occurs, and \<open>-1\<close> means that it occurs nowhere.
\<close>

lemma str_find_sound:
  "str_find s sub = int i \<Longrightarrow> take (length sub) (drop i s) = sub"
proof (induction s arbitrary: i)
  case Nil
  then show ?case by (auto split: if_splits)
next
  case (Cons c s)
  show ?case
  proof (cases "take (length sub) (c # s) = sub")
    case True
    with Cons.prems have "i = 0" by simp
    with True show ?thesis by simp
  next
    case False
    with Cons.prems have r: "str_find s sub \<noteq> - 1" "int i = str_find s sub + 1"
      by (auto simp: Let_def split: if_splits)
    with str_find_nonneg [of s sub] obtain j where j: "i = Suc j" "int j = str_find s sub"
      by (cases i) auto
    from Cons.IH [OF j(2) [symmetric]] j(1) show ?thesis by simp
  qed
qed

lemma str_find_first:
  "str_find s sub = int i \<Longrightarrow> j < i \<Longrightarrow> take (length sub) (drop j s) \<noteq> sub"
proof (induction s arbitrary: i j)
  case Nil
  then show ?case by (auto split: if_splits)
next
  case (Cons c s)
  show ?case
  proof (cases "take (length sub) (c # s) = sub")
    case True
    with Cons.prems show ?thesis by simp
  next
    case False
    with Cons.prems have r: "str_find s sub \<noteq> - 1" "int i = str_find s sub + 1"
      by (auto simp: Let_def split: if_splits)
    with str_find_nonneg [of s sub] obtain i' where i': "i = Suc i'" "int i' = str_find s sub"
      by (cases i) auto
    show ?thesis
    proof (cases j)
      case 0
      with False show ?thesis by simp
    next
      case (Suc j')
      with Cons.prems(2) i'(1) have "j' < i'" by simp
      from Cons.IH [OF i'(2) [symmetric] this] Suc show ?thesis by simp
    qed
  qed
qed

lemma str_find_none:
  "str_find s sub = - 1 \<Longrightarrow> take (length sub) (drop j s) \<noteq> sub \<or> length s < j"
proof (induction s arbitrary: j)
  case Nil
  then show ?case by (cases j) (auto split: if_splits)
next
  case (Cons c s)
  from Cons.prems str_find_ge [of s sub]
  have f: "take (length sub) (c # s) \<noteq> sub" and r: "str_find s sub = - 1"
    by (auto simp: Let_def split: if_splits)
  show ?case
  proof (cases j)
    case 0
    with f show ?thesis by simp
  next
    case (Suc j')
    with Cons.IH [OF r, of j'] show ?thesis by auto
  qed
qed

text \<open>
  The tags are tried in input-list order: \<open>check_tags\<close> lists the upper-cased tags of the
  samples in the order of their first occurrence.
\<close>

lemma remdups_drop_later: "k \<in> set zs \<Longrightarrow> remdups (xs @ k # zs) = remdups (xs @ zs)"
  by (induction xs) auto

lemma dict_set_keys_list:
  "map fst (dict_set d k v) = (if k \<in> fst ` set d then map fst d else map fst d @ [k])"
  by (induction d k v rule: dict_set.induct) (auto simp: image_iff)

lemma fold_dict_set_keys:
  "map fst (fold (\<lambda>s d. dict_set d (f s) (g s)) xs d0) =
     rev (remdups (rev (map fst d0 @ map f xs)))" if "distinct (map fst d0)"
  using that
proof (induction xs arbitrary: d0)
  case Nil
  then show ?case by (simp add: distinct_remdups_id)
next
  case (Cons x xs)
  let ?d = "dict_set d0 (f x) (g x)"
  have d: "distinct (map fst ?d)" using Cons.prems by (auto simp: dict_set_keys_list)
  show ?case
  proof (cases "f x \<in> fst ` set d0")
    case True
    then have "remdups (rev (map f xs) @ f x # rev (map fst d0)) =
               remdups (rev (map f xs) @ rev (map fst d0))"
      by (intro remdups_drop_later) simp
    with Cons.IH [OF d] True show ?thesis by (simp add: dict_set_keys_list)
  next
    case False
    with Cons.IH [OF d] show ?thesis by (simp add: dict_set_keys_list)
  qed
qed

lemma check_tags_input_order:
  "check_tags samples = rev (remdups (rev (map (\<lambda>s. upper (snd s)) samples)))"
  using fold_dict_set_keys [of "[]" "\<lambda>s. upper (snd s)" fst samples]
  by (simp add: check_tags_def tag_to_sample_def)

lemma make_seeds_filter:
  "make_seeds ps =
     map (\<lambda>p. (upper (take 6 p), upper (take 6 (drop 6 p)))) (filter (\<lambda>p. 12 \<le> length p) ps)"
  by (induction ps) auto

lemma make_seeds_short: "\<forall>p \<in> set ps. length p < 12 \<Longrightarrow> make_seeds ps = []"
  by (induction ps) auto

lemma scan_read_gap_effect:
  "scan_read t2s seeds line st = (st', raised) \<Longrightarrow> stats_gap st' sid = Some c' \<Longrightarrow>
     stats_gap st sid = Some c' \<or>
     (\<exists>c w. stats_gap st sid = Some c \<and> c' = counter_inc c (gap_key w seeds))"
  by (auto simp: scan_read_def Let_def split: option.splits prod.splits if_splits)

lemma scan_read_no_seeds:
  assumes "gap_keys_from st0 st" and "scan_read t2s [] line st = (st', raised)"
  shows "gap_keys_from st0 st'"
  unfolding gap_keys_from_def
proof (intro allI impI)
  fix sid c' k
  assume c': "stats_gap st' sid = Some c'" and k: "k \<in> fst ` set c'"
  from scan_read_gap_effect [OF assms(2) c']
  consider "stats_gap st sid = Some c'"
    | c w where "stats_gap st sid = Some c" "c' = counter_inc c (gap_key w [])" by blast
  then show "k = - 1 \<or> (\<exists>c0. stats_gap st0 sid = Some c0 \<and> k \<in> fst ` set c0)"
  proof cases
    case 1
    with assms(1) k show ?thesis unfolding gap_keys_from_def by blast
  next
    case 2
    from 2(2) k have "k = - 1 \<or> k \<in> fst ` set c"
      by (simp add: keys_counter_inc gap_key_def)
    with assms(1) 2(1) show ?thesis unfolding gap_keys_from_def by blast
  qed
qed

lemma gap_keys_from_refl: "gap_keys_from st st"
  by (auto simp: gap_keys_from_def)

text \<open>
  Claim C10. The seeds are derived from exactly the primers of length at least 12. When no
  primer of the list reaches 12 bases (the empty list included), the seed list is empty,
  every tag hit records the sentinel \<open>-1\<close> in the gap histogram of its sample, and after
  the scan of a file every gap key that was not there before the scan is \<open>-1\<close>.
\<close>

theorem short_primers_only_sentinel:
  "make_seeds primer_list =
     map (\<lambda>p. (upper (take 6 p), upper (take 6 (drop 6 p))))
       (filter (\<lambda>p. 12 \<le> length p) primer_list) \<and>
   ((\<forall>p \<in> set primer_list. length p < 12) \<longrightarrow>
      make_seeds primer_list = [] \<and>
      (\<forall>st line tg p. have_counters samples st \<longrightarrow>
          tag_loop (check_tags samples) (take 60 (upper (strip line))) = Some (tg, p) \<longrightarrow>
          (\<exists>sid cg. map_of (tag_to_sample samples) tg = Some sid \<and> stats_gap st sid = Some cg \<and>
             stats_gap (fst (scan_read (tag_to_sample samples) (make_seeds primer_list) line st)) =
               (stats_gap st)(sid \<mapsto> counter_inc cg (- 1)))) \<and>
      (\<forall>st sid c k.
          stats_gap (snd (scan_file_structure fl samples primer_list st)) sid = Some c
           \<longrightarrow> k \<in> fst ` set c
           \<longrightarrow> k = - 1 \<or> (\<exists>c0. stats_gap st sid = Some c0 \<and> k \<in> fst ` set c0)))"
proof (intro conjI impI allI)
  show "make_seeds primer_list =
     map (\<lambda>p. (upper (take 6 p), upper (take 6 (drop 6 p))))
       (filter (\<lambda>p. 12 \<le> length p) primer_list)"
    by (rule make_seeds_filter)
next
  assume "\<forall>p \<in> set primer_list. length p < 12"
  then show "make_seeds primer_list = []" by (rule make_seeds_short)
next
  fix st line tg p
  assume short: "\<forall>p \<in> set primer_list. length p < 12"
    and hc: "have_counters samples st"
    and hit: "tag_loop (check_tags samples) (take 60 (upper (strip line))) = Some (tg, p)"
  from make_seeds_short [OF short] have e: "make_seeds primer_list = []" .
  from hit_counters [OF hc hit] obtain sid cp cg where
    b: "map_of (tag_to_sample samples) tg = Some sid" "stats_pos st sid = Some cp"
       "stats_gap st sid = Some cg"
    by blast
  have "stats_gap (fst (scan_read (tag_to_sample samples) [] line st)) =
          (stats_gap st)(sid \<mapsto> counter_inc cg (- 1))"
    by (simp add: scan_read_at_hit [OF hit b] gap_key_def)
  with b(1,3) e show "\<exists>sid cg. map_of (tag_to_sample samples) tg = Some sid \<and>
      stats_gap st sid = Some cg \<and>
      stats_gap (fst (scan_read (tag_to_sample samples) (make_seeds primer_list) line st)) =
        (stats_gap st)(sid \<mapsto> counter_inc cg (- 1))"
    by auto
next
  fix st sid c k
  assume short: "\<forall>p \<in> set primer_list. length p < 12"
    and c: "stats_gap (snd (scan_file_structure fl samples primer_list st)) sid = Some c"
    and k: "k \<in> fst ` set c"
  from make_seeds_short [OF short] have e: "make_seeds primer_list = []" .
  obtain n st' where r: "scan_file_structure fl samples primer_list st = (n, st')"
    by (cases "scan_file_structure fl samples primer_list st")
  have "gap_keys_from st st'"
  proof (cases fl)
    case None
    with r show ?thesis by (simp add: scan_file_structure_def gap_keys_from_refl)
  next
    case (Some lines)
    with r e have "scan_lines (tag_to_sample samples) [] 0 0 lines st = (n, st')"
      by (simp add: scan_file_structure_def)
    from scan_lines_inv [of lines "gap_keys_from st" "tag_to_sample samples" "[]",
        OF _ gap_keys_from_refl this]
    show ?thesis using scan_read_no_seeds by blast
  qed
  with r c k show "k = - 1 \<or> (\<exists>c0. stats_gap st sid = Some c0 \<and> k \<in> fst ` set c0)"
    unfolding gap_keys_from_def by auto
qed

lemma seed_gap_idx_raw:
  "seed_gap_idx w seed = (case raw_offset w seed of None \<Rightarrow> - 1 | Some g \<Rightarrow> g)"
  by (simp add: seed_gap_idx_def raw_offset_def Let_def)

lemma raw_offset_ge: "raw_offset w seed = Some g \<Longrightarrow> - 6 \<le> g"
  using str_find_nonneg [of w "fst seed"] str_find_nonneg [of w "snd seed"]
  by (auto simp: raw_offset_def split: if_splits)

lemma seed_loop_skip: "\<forall>s \<in> set pre. skipped w s \<Longrightarrow> seed_loop w (pre @ rest) = seed_loop w rest"
  by (induction pre) (auto simp: skipped_def seed_gap_idx_raw Let_def split: option.splits)

lemma gap_key_all_skipped: "\<forall>s \<in> set seeds. skipped w s \<Longrightarrow> gap_key w seeds = - 1"
  using seed_loop_skip [of seeds w "[]"] by (simp add: gap_key_def)

lemma gap_key_first_accepted:
  assumes "\<forall>s \<in> set pre. skipped w s" and "raw_offset w seed = Some g"
    and "- 5 \<le> g" and "g \<noteq> - 1"
  shows "gap_key w (pre @ seed # post) = max 0 g"
  using assms(2-4) seed_loop_skip [OF assms(1), of "seed # post"]
  by (simp add: gap_key_def seed_gap_idx_raw Let_def)

text \<open>
  Claim C2, as the code has it. On a tag hit the seeds are tried in order. As long as
  every seed tried so far matches nowhere or has a raw offset below \<open>-5\<close> (\<open>skipped\<close>), the
  next seed ends the search when its raw offset is in \<open>[-5,-2]\<close>, which is recorded in the
  sample's gap histogram as 0, or when its raw offset is \<open>\<ge> 0\<close>, which is recorded as
  itself. When every seed of the list matches nowhere or has a raw offset below \<open>-5\<close>, the
  tag hit records the sentinel \<open>-1\<close>: an offset below \<open>-5\<close> is never a key, but the hit is
  counted as not found. Nothing is stated about a search that meets a seed whose raw
  offset is exactly \<open>-1\<close>.
\<close>

theorem gap_normalisation:
  assumes "have_counters samples st"
    and "tag_loop (check_tags samples) (take 60 (upper (strip line))) = Some (tg, p)"
    and "w = take 30 (drop (nat p + length tg) (take 60 (upper (strip line))))"
    and "\<forall>s \<in> set pre. skipped w s"
  shows "\<exists>sid cg. map_of (tag_to_sample samples) tg = Some sid \<and> stats_gap st sid = Some cg \<and>
           (\<forall>seed post g. raw_offset w seed = Some g \<longrightarrow>
              (- 5 \<le> g \<and> g \<le> - 2 \<longrightarrow>
                 stats_gap (fst (scan_read (tag_to_sample samples) (pre @ seed # post) line st)) =
                   (stats_gap st)(sid \<mapsto> counter_inc cg 0)) \<and>
              (0 \<le> g \<longrightarrow>
                 stats_gap (fst (scan_read (tag_to_sample samples) (pre @ seed # post) line st)) =
                   (stats_gap st)(sid \<mapsto> counter_inc cg g))) \<and>
           stats_gap (fst (scan_read (tag_to_sample samples) pre line st)) =
             (stats_gap st)(sid \<mapsto> counter_inc cg (- 1))"
proof -
  from hit_counters [OF assms(1,2)] obtain sid cp cg where
    b: "map_of (tag_to_sample samples) tg = Some sid" "stats_pos st sid = Some cp"
       "stats_gap st sid = Some cg"
    by blast
  have r: "stats_gap (fst (scan_read (tag_to_sample samples) seeds line st)) =
              (stats_gap st)(sid \<mapsto> counter_inc cg (gap_key w seeds))" for seeds
    unfolding assms(3) by (simp add: scan_read_at_hit [OF assms(2) b])
  have low: "stats_gap (fst (scan_read (tag_to_sample samples) (pre @ seed # post) line st)) =
                   (stats_gap st)(sid \<mapsto> counter_inc cg 0)"
    if "raw_offset w seed = Some g" "- 5 \<le> g" "g \<le> - 2" for seed post g
    using gap_key_first_accepted [OF assms(4) that(1,2), of post] that(3) by (simp add: r)
  have pos: "stats_gap (fst (scan_read (tag_to_sample samples) (pre @ seed # post) line st)) =
                   (stats_gap st)(sid \<mapsto> counter_inc cg g)"
    if "raw_offset w seed = Some g" "0 \<le> g" for seed post g
    using gap_key_first_accepted [OF assms(4) that(1), of post] that(2) by (simp add: r)
  have none: "stats_gap (fst (scan_read (tag_to_sample samples) pre line st)) =
             (stats_gap st)(sid \<mapsto> counter_inc cg (- 1))"
    using gap_key_all_skipped [OF assms(4)] by (simp add: r)
  from b(1,3) low pos none show ?thesis by blast
qed

lemma fold_upd_const:
  "fold (\<lambda>s m. m(f s \<mapsto> v)) xs m0 k = (if k \<in> f ` set xs then Some v else m0 k)"
  by (induction xs arbitrary: m0) auto

lemma init_stats_eq: "init_stats samples sid = (if sid \<in> fst ` set samples then Some [] else None)"
  by (simp add: init_stats_def fold_upd_const)

lemma strategy_dict_eq:
  "strategy_dict samples mode sid = (if sid \<in> fst ` set samples then Some mode else None)"
  by (simp add: strategy_dict_def fold_upd_const)

lemma init_have_counters:
  "have_counters samples \<lparr>stats_pos = init_stats samples, stats_gap = init_stats samples\<rparr>"
  by (force simp: have_counters_def init_stats_eq)

lemma init_gap_follows_pos:
  "gap_follows_pos \<lparr>stats_pos = init_stats samples, stats_gap = init_stats samples\<rparr>"
  by (simp add: gap_follows_pos_def)

lemma export_loop_returns:
  "fst ` set ss \<subseteq> dom (stats_pos st) \<Longrightarrow> fst ` set ss \<subseteq> dom (stats_gap st) \<Longrightarrow>
     \<exists>data'. export_loop ss st data = Inr data'"
proof (induction ss arbitrary: data)
  case Nil
  then show ?case by simp
next
  case (Cons s ss)
  from Cons.prems obtain cp cg where
    "stats_pos st (fst s) = Some cp" "stats_gap st (fst s) = Some cg" by auto
  moreover from Cons.prems have "fst ` set ss \<subseteq> dom (stats_pos st)" "fst ` set ss \<subseteq> dom (stats_gap st)"
    by auto
  ultimately show ?case using Cons.IH by (simp add: Let_def)
qed

lemma export_loop_entries:
  "export_loop ss st data = Inr data' \<Longrightarrow>
     sid \<in> fst ` set ss \<or> (\<exists>e. data sid = Some e \<and> entry_ok st sid e) \<Longrightarrow>
     \<exists>e. data' sid = Some e \<and> entry_ok st sid e"
proof (induction ss arbitrary: data)
  case Nil
  then show ?case by simp
next
  case (Cons s ss)
  from Cons.prems(1) obtain cp cg where
    c: "stats_pos st (fst s) = Some cp" "stats_gap st (fst s) = Some cg"
    by (auto simp: Let_def split: option.splits)
  define e0 where "e0 = \<lparr>tag = snd s,
      tag_shift_mode = (case most_common1 cp of Some (k, n) \<Rightarrow> k | None \<Rightarrow> 0),
      primer_gap_mode = (case most_common1 cg of Some (k, n) \<Rightarrow> k | None \<Rightarrow> - 1),
      raw_pos_counts = cp, raw_gap_counts = cg\<rparr>"
  from Cons.prems(1) c have step: "export_loop ss st (data(fst s \<mapsto> e0)) = Inr data'"
    by (simp add: Let_def e0_def)
  have ok0: "entry_ok st (fst s) e0" using c by (simp add: entry_ok_def e0_def)
  from Cons.prems(2) ok0
  have "sid \<in> fst ` set ss \<or> (\<exists>e. (data(fst s \<mapsto> e0)) sid = Some e \<and> entry_ok st sid e)"
    by auto
  from Cons.IH [OF step this] show ?case .
qed

lemma scan_file_structure_keeps:
  assumes "have_counters samples st" "gap_follows_pos st"
    and "scan_file_structure fl samples' primers st = (n, st')"
  shows "have_counters samples st' \<and> gap_follows_pos st'"
  using scan_file_structure_inv [of fl "have_counters samples", OF _ assms(1,3)]
    scan_file_structure_inv [of fl gap_follows_pos, OF _ assms(2,3)]
    scan_read_have_counters scan_read_gap_follows_pos by blast

lemma scan_file_structure_keeps_empty:
  assumes "\<forall>line \<in> set (file_lines fl). \<not> hits_sample samples sid line"
    and "stats_pos st sid = Some []"
    and "scan_file_structure fl samples primers st = (n, st')"
  shows "stats_pos st' sid = Some []"
proof (cases fl)
  case None
  with assms(2,3) show ?thesis by (simp add: scan_file_structure_def)
next
  case (Some lines)
  with assms(3) have
    r: "scan_lines (tag_to_sample samples) (make_seeds primers) 0 0 lines st = (n, st')"
    by (simp add: scan_file_structure_def)
  from assms(1) Some have no: "\<forall>line \<in> set lines. \<not> hits_sample samples sid line"
    by (simp add: file_lines_def)
  show ?thesis
    using scan_lines_inv [of lines "\<lambda>s. stats_pos s sid = Some []" "tag_to_sample samples"
        "make_seeds primers", OF _ assms(2) r] no scan_read_keeps_empty
    by blast
qed

lemma scan_raw_data_unfold:
  "\<exists>c st2 data.
     have_counters samples st2 \<and> gap_follows_pos st2 \<and>
     export_scan_data_to_json samples st2 = Inr data \<and>
     (\<forall>sid \<in> fst ` set samples.
        (\<forall>line \<in> set (file_lines fwd_file) \<union> set (file_lines rev_file).
            \<not> hits_sample samples sid line) \<longrightarrow> stats_pos st2 sid = Some []) \<and>
     scan_raw_data cfg inputs samples fwd_file rev_file =
       (if RUN_MODE cfg = ''1''
        then Inr \<lparr>scanned = c, final_stats = st2, scan_report = data, decision = None\<rparr>
        else (case menu samples inputs of
                Inl e \<Rightarrow> Inl e
              | Inr d \<Rightarrow> Inr \<lparr>scanned = c, final_stats = st2, scan_report = data,
                              decision = Some d\<rparr>))"
proof -
  define st0 where "st0 = \<lparr>stats_pos = init_stats samples, stats_gap = init_stats samples\<rparr>"
  define fwds where "fwds = filter (\<lambda>p. p \<noteq> []) [P_FWD_1 cfg, P_FWD_2 cfg]"
  define revs where "revs = filter (\<lambda>p. p \<noteq> []) [P_REV_1 cfg, P_REV_2 cfg]"
  obtain c1 st1 where r1: "scan_file_structure fwd_file samples fwds st0 = (c1, st1)"
    by (cases "scan_file_structure fwd_file samples fwds st0")
  obtain c2 st2 where r2: "scan_file_structure rev_file samples revs st1 = (c2, st2)"
    by (cases "scan_file_structure rev_file samples revs st1")
  have i0: "have_counters samples st0" "gap_follows_pos st0"
    unfolding st0_def by (rule init_have_counters, rule init_gap_follows_pos)
  from scan_file_structure_keeps [OF i0 r1] have i1: "have_counters samples st1" "gap_follows_pos st1"
    by simp_all
  from scan_file_structure_keeps [OF i1 r2] have i2: "have_counters samples st2" "gap_follows_pos st2"
    by simp_all
  from i2(1) obtain data where d: "export_scan_data_to_json samples st2 = Inr data"
    unfolding export_scan_data_to_json_def have_counters_def
    using export_loop_returns [of samples st2 Map.empty] by blast
  have n: "stats_pos st2 sid = Some []"
    if "sid \<in> fst ` set samples"
      and "\<forall>line \<in> set (file_lines fwd_file) \<union> set (file_lines rev_file).
             \<not> hits_sample samples sid line" for sid
  proof -
    from that(1) have "stats_pos st0 sid = Some []" by (simp add: st0_def init_stats_eq)
    from scan_file_structure_keeps_empty [OF _ this r1] that(2)
    have "stats_pos st1 sid = Some []" by blast
    from scan_file_structure_keeps_empty [OF _ this r2] that(2)
    show ?thesis by blast
  qed
  have "scan_raw_data cfg inputs samples fwd_file rev_file =
       (if RUN_MODE cfg = ''1''
        then Inr \<lparr>scanned = c1 + c2, final_stats = st2, scan_report = data, decision = None\<rparr>
        else (case menu samples inputs of
                Inl e \<Rightarrow> Inl e
              | Inr d \<Rightarrow> Inr \<lparr>scanned = c1 + c2, final_stats = st2, scan_report = data,
                              decision = Some d\<rparr>))"
    unfolding scan_raw_data_def Let_def
    using r1 r2 d by (simp add: st0_def fwds_def revs_def)
  with i2 d n show ?thesis by blast
qed

text \<open>
  Claim C4. The scan and the export never raise, whatever the two read files are (missing,
  unreadable or readable): \<open>scan_raw_data\<close> returns whenever the menu after the export
  does (or run mode 1 skips it). In the returned report, every sample whose position
  histogram is empty, or none of whose file lines is attributed to it (in particular when
  both files are missing), has \<open>tag_shift_mode = 0\<close> and \<open>primer_gap_mode = -1\<close>, with empty
  raw counts.
\<close>

theorem zero_matches_report:
  "(RUN_MODE cfg = ''1'' \<or> (\<exists>d. menu samples inputs = Inr d)
      \<longrightarrow> (\<exists>r. scan_raw_data cfg inputs samples fwd_file rev_file = Inr r)) \<and>
   (\<forall>r. scan_raw_data cfg inputs samples fwd_file rev_file = Inr r \<longrightarrow>
      (\<forall>s \<in> set samples.
         stats_pos (final_stats r) (fst s) = Some [] \<or>
         (\<forall>line \<in> set (file_lines fwd_file) \<union> set (file_lines rev_file).
            \<not> hits_sample samples (fst s) line) \<longrightarrow>
           (\<exists>e. scan_report r (fst s) = Some e \<and> tag_shift_mode e = 0 \<and> primer_gap_mode e = - 1
               \<and> raw_pos_counts e = [] \<and> raw_gap_counts e = [])))"
proof -
  from scan_raw_data_unfold [of samples fwd_file rev_file cfg inputs] obtain c st2 data where
    h: "have_counters samples st2" "gap_follows_pos st2"
       "export_scan_data_to_json samples st2 = Inr data"
       "\<forall>sid \<in> fst ` set samples.
        (\<forall>line \<in> set (file_lines fwd_file) \<union> set (file_lines rev_file).
            \<not> hits_sample samples sid line) \<longrightarrow> stats_pos st2 sid = Some []"
       "scan_raw_data cfg inputs samples fwd_file rev_file =
         (if RUN_MODE cfg = ''1''
          then Inr \<lparr>scanned = c, final_stats = st2, scan_report = data, decision = None\<rparr>
          else (case menu samples inputs of
                  Inl e \<Rightarrow> Inl e
                | Inr d \<Rightarrow> Inr \<lparr>scanned = c, final_stats = st2, scan_report = data,
                                decision = Some d\<rparr>))"
    by blast
  have ret: "RUN_MODE cfg = ''1'' \<or> (\<exists>d. menu samples inputs = Inr d)
      \<longrightarrow> (\<exists>r. scan_raw_data cfg inputs samples fwd_file rev_file = Inr r)"
    using h(5) by auto
  have fields: "final_stats r = st2 \<and> scan_report r = data"
    if "scan_raw_data cfg inputs samples fwd_file rev_file = Inr r" for r
    using that h(5) by (auto split: if_splits sum.splits)
  have entry: "\<exists>e. data (fst s) = Some e \<and> tag_shift_mode e = 0 \<and> primer_gap_mode e = - 1
               \<and> raw_pos_counts e = [] \<and> raw_gap_counts e = []"
    if s: "s \<in> set samples"
      and z: "stats_pos st2 (fst s) = Some [] \<or>
              (\<forall>line \<in> set (file_lines fwd_file) \<union> set (file_lines rev_file).
                 \<not> hits_sample samples (fst s) line)" for s
  proof -
    from z h(4) s have p: "stats_pos st2 (fst s) = Some []" by blast
    with h(2) have g: "stats_gap st2 (fst s) = Some []" by (simp add: gap_follows_pos_def)
    from export_loop_entries [of samples st2 Map.empty data "fst s"] h(3) s
    obtain e where "data (fst s) = Some e" "entry_ok st2 (fst s) e"
      by (auto simp: export_scan_data_to_json_def)
    with p g show ?thesis by (auto simp: entry_ok_def)
  qed
  from ret fields entry show ?thesis by blast
qed

lemma dict_get_strategy:
  "s \<in> set samples \<Longrightarrow> dict_get (strategy_dict samples mode) (fst s) dflt = mode"
  by (simp add: dict_get_def strategy_dict_eq)

lemma menu_result:
  "menu samples inputs = Inr d \<Longrightarrow>
     \<exists>mode \<in> {''strict'', ''universal'', ''rescue''}. d = strategy_dict samples mode"
  by (induction samples inputs rule: menu.induct) (auto split: if_splits)

lemma length_noise_seqs: "length (noise_seqs rnd n) = n"
  by (simp add: noise_seqs_def)

lemma noise_seqs_shape:
  "s \<in> set (noise_seqs rnd n) \<Longrightarrow> length s = 200 \<and> set s \<subseteq> set ''ACGT''"
proof -
  assume "s \<in> set (noise_seqs rnd n)"
  then obtain i where s: "s = map (\<lambda>j. ''ACGT'' ! (rnd (200 * i + j) mod 4)) [0 ..< 200]"
    by (auto simp: noise_seqs_def)
  have "''ACGT'' ! (k mod 4) \<in> set ''ACGT''" for k :: nat
    by (rule nth_mem) simp
  with s show ?thesis by auto
qed

lemma length_X_train:
  "length (X_train rnd sequences) = min (length sequences) (max 20 (length sequences div 5)) + length sequences"
  by (simp add: X_train_def X_features_def X_noise_def top_limit_def length_noise_seqs min.commute)

lemma length_y_train:
  "length (y_train rnd sequences) = max 20 (length sequences div 5) + length sequences"
  by (simp add: y_train_def X_noise_def top_limit_def length_noise_seqs)

text \<open>
  Claim C3, as the code has it. The rows of Path A's training matrix are the features of
  the first \<open>max(20, n div 5)\<close> input sequences (all of them when there are fewer) followed by
  the features of \<open>n\<close> synthetic sequences, one per input sequence, each of 200 bases over
  \<open>ACGT\<close>; the labels are \<open>max(20, n div 5)\<close> ones and \<open>n\<close> zeros. The positive and the
  negative rows are equally many exactly when the input has at most 20 sequences.
\<close>

theorem path_a_training_set:
  "X_train rnd sequences =
     map extract_features (take (max 20 (length sequences div 5)) sequences) @
     map extract_features (noise_seqs rnd (length sequences)) \<and>
   y_train rnd sequences =
     replicate (max 20 (length sequences div 5)) 1 @ replicate (length sequences) 0 \<and>
   length (noise_seqs rnd (length sequences)) = length sequences \<and>
   (\<forall>s \<in> set (noise_seqs rnd (length sequences)). length s = 200 \<and> set s \<subseteq> set ''ACGT'') \<and>
   (length (take (top_limit sequences) (X_features sequences)) = length (X_noise rnd sequences)
      \<longleftrightarrow> length sequences \<le> 20)"
proof (intro conjI)
  show "X_train rnd sequences =
     map extract_features (take (max 20 (length sequences div 5)) sequences) @
     map extract_features (noise_seqs rnd (length sequences))"
    by (simp add: X_train_def X_features_def X_noise_def top_limit_def take_map)
  show "y_train rnd sequences =
     replicate (max 20 (length sequences div 5)) 1 @ replicate (length sequences) 0"
    by (simp add: y_train_def X_noise_def top_limit_def length_noise_seqs)
  show "length (noise_seqs rnd (length sequences)) = length sequences"
    by (rule length_noise_seqs)
  show "\<forall>s \<in> set (noise_seqs rnd (length sequences)). length s = 200 \<and> set s \<subseteq> set ''ACGT''"
    using noise_seqs_shape by blast
  show "length (take (top_limit sequences) (X_features sequences)) = length (X_noise rnd sequences)
      \<longleftrightarrow> length sequences \<le> 20"
    by (simp add: X_features_def X_noise_def top_limit_def length_noise_seqs) arith
qed

text \<open>
  Claim C9. With the learning library available, for an input of \<open>n\<close> sequences with
  \<open>0 < n < 20\<close> the training matrix has \<open>2 n\<close> rows and the label vector \<open>20 + n\<close> entries,
  the fit rejects the mismatch with \<open>ValueError\<close>, and the engine raises it; so does
  \<open>run_ai_classification\<close> on every file that parses to such an input.
\<close>

theorem small_input_raises:
  assumes "0 < length sequences" and "length sequences < 20"
  shows "length (X_train rnd sequences) = 2 * length sequences \<and>
         length (y_train rnd sequences) = 20 + length sequences \<and>
         run_hybrid_engine True ml rnd sequences ids = Inl ValueError \<and>
         (\<forall>lines. parse_fasta lines = (ids, sequences) \<longrightarrow>
            run_ai_classification True ml rnd (Lines lines) = Inl ValueError)"
proof -
  from assms have x: "length (X_train rnd sequences) = 2 * length sequences"
    by (simp add: length_X_train)
  from assms have y: "length (y_train rnd sequences) = 20 + length sequences"
    by (simp add: length_y_train)
  from x y assms have e: "run_hybrid_engine True ml rnd sequences ids = Inl ValueError"
    by (simp add: run_hybrid_engine_def rf_probs_def)
  from assms(1) have "sequences \<noteq> []" by auto
  with e have "\<forall>lines. parse_fasta lines = (ids, sequences) \<longrightarrow>
            run_ai_classification True ml rnd (Lines lines) = Inl ValueError"
    by (simp add: run_ai_classification_def)
  with x y e show ?thesis by blast
qed

lemma fasta_loop_no_header:
  "\<forall>line \<in> set lines. take 1 line \<noteq> ''>'' \<Longrightarrow>
     \<exists>seq'. fasta_loop lines ([], seq, [], []) = ([], seq', [], [])"
  by (induction lines arbitrary: seq) auto

lemma parse_fasta_no_header:
  "\<forall>line \<in> set lines. take 1 line \<noteq> ''>'' \<Longrightarrow> parse_fasta lines = ([], [])"
  using fasta_loop_no_header [of lines "[]"] by (auto simp: parse_fasta_def)

text \<open>
  Claim C7. \<open>run_ai_classification\<close> returns the empty mapping, without raising, when the
  FASTA file does not exist, when it holds no header line, and whenever parsing yields an
  empty sequence list. When the learning library is unavailable, \<open>run_hybrid_engine\<close>
  returns the empty mapping for every input, and so does \<open>run_ai_classification\<close> on every
  absent or readable file.
\<close>

theorem empty_input_empty_result:
  "run_ai_classification avail ml rnd NoFile = Inr Map.empty \<and>
   ((\<forall>line \<in> set lines. take 1 line \<noteq> ''>'') \<longrightarrow>
      run_ai_classification avail ml rnd (Lines lines) = Inr Map.empty) \<and>
   (snd (parse_fasta lines) = [] \<longrightarrow>
      run_ai_classification avail ml rnd (Lines lines) = Inr Map.empty) \<and>
   run_hybrid_engine False ml rnd sequences ids = Inr Map.empty \<and>
   run_ai_classification False ml rnd NoFile = Inr Map.empty \<and>
   run_ai_classification False ml rnd (Lines lines) = Inr Map.empty"
proof (intro conjI impI)
  show "run_ai_classification avail ml rnd NoFile = Inr Map.empty"
       "run_ai_classification False ml rnd NoFile = Inr Map.empty"
    by (simp_all add: run_ai_classification_def)
  show "run_hybrid_engine False ml rnd sequences ids = Inr Map.empty"
    by (simp add: run_hybrid_engine_def)
  show "run_ai_classification False ml rnd (Lines lines) = Inr Map.empty"
    by (simp add: run_ai_classification_def run_hybrid_engine_def split: prod.splits)
next
  assume "\<forall>line \<in> set lines. take 1 line \<noteq> ''>''"
  from parse_fasta_no_header [OF this]
  show "run_ai_classification avail ml rnd (Lines lines) = Inr Map.empty"
    by (simp add: run_ai_classification_def)
next
  assume "snd (parse_fasta lines) = []"
  then show "run_ai_classification avail ml rnd (Lines lines) = Inr Map.empty"
    by (auto simp: run_ai_classification_def split: prod.splits)
qed








text \<open>
  The sample of a tag is the last sample of the input list that carries it (after
  upper-casing), since later entries of the dictionary comprehension overwrite earlier
  ones; and the tag loop over the dictionary's keys finds the same tag as a loop over the
  upper-cased tags of the input list, in input-list order.
\<close>

lemma map_of_dict_set: "map_of (dict_set d k v) = (map_of d)(k \<mapsto> v)"
  by (induction d k v rule: dict_set.induct) (auto simp: fun_eq_iff)

lemma map_of_fold_dict_set:
  "map_of (fold (\<lambda>s d. dict_set d (f s) (g s)) xs d0) = fold (\<lambda>s m. m(f s \<mapsto> g s)) xs (map_of d0)"
  by (induction xs arbitrary: d0) (simp_all add: map_of_dict_set)

lemma fold_upd_last:
  assumes F: "\<And>s m. F s m = m(f s \<mapsto> g s)"
  shows "fold F xs m0 k = Some v \<Longrightarrow>
     (\<exists>i < length xs. f (xs ! i) = k \<and> g (xs ! i) = v \<and>
         (\<forall>j < length xs. i < j \<longrightarrow> f (xs ! j) \<noteq> k)) \<or>
     (k \<notin> f ` set xs \<and> m0 k = Some v)"
proof (induction xs arbitrary: v rule: rev_induct)
  case Nil
  then show ?case by simp
next
  case (snoc x xs)
  have step: "fold F (xs @ [x]) m0 k = (if k = f x then Some (g x) else fold F xs m0 k)"
    by (simp add: F)
  show ?case
  proof (cases "f x = k")
    case True
    with snoc.prems step have "g x = v" by simp
    with True have "length xs < length (xs @ [x]) \<and> f ((xs @ [x]) ! length xs) = k \<and>
        g ((xs @ [x]) ! length xs) = v \<and>
        (\<forall>j < length (xs @ [x]). length xs < j \<longrightarrow> f ((xs @ [x]) ! j) \<noteq> k)"
      by simp
    then show ?thesis by blast
  next
    case False
    with snoc.prems step have "fold F xs m0 k = Some v" by auto
    from snoc.IH [OF this] show ?thesis
    proof
      assume "\<exists>i < length xs. f (xs ! i) = k \<and> g (xs ! i) = v \<and>
         (\<forall>j < length xs. i < j \<longrightarrow> f (xs ! j) \<noteq> k)"
      then obtain i where i: "i < length xs" "f (xs ! i) = k" "g (xs ! i) = v"
        "\<forall>j < length xs. i < j \<longrightarrow> f (xs ! j) \<noteq> k" by blast
      have "\<forall>j < length (xs @ [x]). i < j \<longrightarrow> f ((xs @ [x]) ! j) \<noteq> k"
      proof (intro allI impI)
        fix j assume "j < length (xs @ [x])" "i < j"
        then show "f ((xs @ [x]) ! j) \<noteq> k"
          using i(4) False by (cases "j < length xs") (auto simp: nth_append)
      qed
      with i(1-3) have "i < length (xs @ [x]) \<and> f ((xs @ [x]) ! i) = k \<and>
          g ((xs @ [x]) ! i) = v \<and>
          (\<forall>j < length (xs @ [x]). i < j \<longrightarrow> f ((xs @ [x]) ! j) \<noteq> k)"
        by (simp add: nth_append)
      then show ?thesis by blast
    next
      assume "k \<notin> f ` set xs \<and> m0 k = Some v"
      with False show ?thesis by auto
    qed
  qed
qed

lemma tag_to_sample_last_carrier:
  assumes "map_of (tag_to_sample samples) tg = Some sid"
  shows "\<exists>i < length samples. upper (snd (samples ! i)) = tg \<and> fst (samples ! i) = sid \<and>
           (\<forall>j < length samples. i < j \<longrightarrow> upper (snd (samples ! j)) \<noteq> tg)"
proof -
  from assms have "fold (\<lambda>s m. m(upper (snd s) \<mapsto> fst s)) samples Map.empty tg = Some sid"
    by (simp add: tag_to_sample_def map_of_fold_dict_set)
  from fold_upd_last [of "\<lambda>s m. m(upper (snd s) \<mapsto> fst s)" "\<lambda>s. upper (snd s)" fst, OF refl this]
  show ?thesis by simp
qed

lemma tag_loop_append:
  "tag_loop (xs @ ys) r = (case tag_loop xs r of Some h \<Rightarrow> Some h | None \<Rightarrow> tag_loop ys r)"
  by (induction xs) (auto simp: Let_def)

lemma tag_loop_None_iff:
  "tag_loop ts r = None \<longleftrightarrow> (\<forall>t \<in> set ts. str_find r t = - 1 \<or> 10 < str_find r t)"
  by (induction ts) (auto simp: Let_def)

lemma tag_loop_fold_keys:
  "tag_loop (map fst (fold (\<lambda>s d. dict_set d (f s) (g s)) xs d0)) r =
     (case tag_loop (map fst d0) r of Some h \<Rightarrow> Some h | None \<Rightarrow> tag_loop (map f xs) r)"
proof (induction xs arbitrary: d0)
  case Nil
  then show ?case by (simp split: option.splits)
next
  case (Cons x xs)
  show ?case
  proof (cases "f x \<in> fst ` set d0")
    case True
    then have k: "map fst (dict_set d0 (f x) (g x)) = map fst d0"
      by (simp add: dict_set_keys_list)
    show ?thesis
    proof (cases "tag_loop (map fst d0) r")
      case None
      with True have "str_find r (f x) = - 1 \<or> 10 < str_find r (f x)"
        by (auto simp: tag_loop_None_iff)
      then have "tag_loop (map f (x # xs)) r = tag_loop (map f xs) r" by (auto simp: Let_def)
      with None k Cons.IH [of "dict_set d0 (f x) (g x)"] show ?thesis by simp
    next
      case (Some h)
      with k Cons.IH [of "dict_set d0 (f x) (g x)"] show ?thesis by simp
    qed
  next
    case False
    then have k: "map fst (dict_set d0 (f x) (g x)) = map fst d0 @ [f x]"
      by (simp add: dict_set_keys_list)
    show ?thesis
      using Cons.IH [of "dict_set d0 (f x) (g x)"]
      by (simp add: k tag_loop_append Let_def split: option.splits)
  qed
qed

lemma tag_loop_check_tags:
  "tag_loop (check_tags samples) r = tag_loop (map (\<lambda>s. upper (snd s)) samples) r"
  using tag_loop_fold_keys [of "\<lambda>s. upper (snd s)" fst samples "[]" r]
  by (simp add: check_tags_def tag_to_sample_def)

lemma tag_loop_first_index:
  "tag_loop (map f xs) r = Some (t, p) \<Longrightarrow>
     \<exists>k < length xs. f (xs ! k) = t \<and> p = str_find r t \<and> 0 \<le> p \<and> p \<le> 10 \<and>
        (\<forall>j < k. str_find r (f (xs ! j)) = - 1 \<or> 10 < str_find r (f (xs ! j)))"
proof (induction xs)
  case Nil
  then show ?case by simp
next
  case (Cons x xs)
  show ?case
  proof (cases "str_find r (f x) \<noteq> - 1 \<and> str_find r (f x) \<le> 10")
    case True
    with Cons.prems have "f x = t" "p = str_find r t" by (auto simp: Let_def)
    with True str_find_nonneg [of r "f x"]
    have "0 < length (x # xs) \<and> f ((x # xs) ! 0) = t \<and> p = str_find r t \<and> 0 \<le> p \<and> p \<le> 10 \<and>
        (\<forall>j < 0. str_find r (f ((x # xs) ! j)) = - 1 \<or> 10 < str_find r (f ((x # xs) ! j)))"
      by simp
    then show ?thesis by blast
  next
    case False
    with Cons.prems have "tag_loop (map f xs) r = Some (t, p)" by (auto simp: Let_def)
    from Cons.IH [OF this] obtain k where
      k: "k < length xs" "f (xs ! k) = t" "p = str_find r t" "0 \<le> p" "p \<le> 10"
         "\<forall>j < k. str_find r (f (xs ! j)) = - 1 \<or> 10 < str_find r (f (xs ! j))"
      by blast
    have "\<forall>j < Suc k. str_find r (f ((x # xs) ! j)) = - 1 \<or> 10 < str_find r (f ((x # xs) ! j))"
    proof (intro allI impI)
      fix j assume "j < Suc k"
      then show "str_find r (f ((x # xs) ! j)) = - 1 \<or> 10 < str_find r (f ((x # xs) ! j))"
        using k(6) False by (cases j) auto
    qed
    with k(1-5) have "Suc k < length (x # xs) \<and> f ((x # xs) ! Suc k) = t \<and> p = str_find r t \<and>
        0 \<le> p \<and> p \<le> 10 \<and>
        (\<forall>j < Suc k. str_find r (f ((x # xs) ! j)) = - 1 \<or> 10 < str_find r (f ((x # xs) ! j)))"
      by simp
    then show ?thesis by blast
  qed
qed

text \<open>
  Claim C5, as the code has it. With the counters that \<open>scan_raw_data\<close> sets up, a sampled
  read either finds no sample's tag at an offset \<open>\<le> 10\<close> of its leading 60 bases, and then
  leaves both histograms as they are, or it is attributed to exactly one sample. The tag
  is the upper-cased tag of the first sample in input-list order (index \<open>k\<close>) whose tag
  first occurs at an offset \<open>p \<le> 10\<close>. The sample credited is the last sample in input-list
  order (index \<open>i\<close>) that carries this tag after upper-casing; it is sample \<open>k\<close> itself when
  the upper-cased tags are pairwise distinct. Only that sample's counters change: its
  position histogram gains one observation at key \<open>p\<close>, \<open>0 \<le> p \<le> 10\<close>, and its gap
  histogram gains exactly one observation at a key that is \<open>\<ge> 0\<close> or the sentinel \<open>-1\<close>.
  No exception is raised.
\<close>

theorem scan_read_one_sample:
  assumes "have_counters samples st"
  shows "((\<forall>s \<in> set samples. str_find (take 60 (upper (strip line))) (upper (snd s)) = - 1
                           \<or> 10 < str_find (take 60 (upper (strip line))) (upper (snd s))) \<and>
          scan_read (tag_to_sample samples) seeds line st = (st, False))
       \<or> (\<exists>k i p cp cg g.
            k < length samples \<and>
            (\<forall>j < k. str_find (take 60 (upper (strip line))) (upper (snd (samples ! j))) = - 1
                  \<or> 10 < str_find (take 60 (upper (strip line))) (upper (snd (samples ! j)))) \<and>
            p = str_find (take 60 (upper (strip line))) (upper (snd (samples ! k))) \<and>
            0 \<le> p \<and> p \<le> 10 \<and>
            i < length samples \<and>
            upper (snd (samples ! i)) = upper (snd (samples ! k)) \<and>
            (\<forall>j < length samples. i < j \<longrightarrow>
                 upper (snd (samples ! j)) \<noteq> upper (snd (samples ! k))) \<and>
            (distinct (map (\<lambda>s. upper (snd s)) samples) \<longrightarrow> i = k) \<and>
            stats_pos st (fst (samples ! i)) = Some cp \<and>
            stats_gap st (fst (samples ! i)) = Some cg \<and>
            (0 \<le> g \<or> g = - 1) \<and>
            scan_read (tag_to_sample samples) seeds line st =
              (\<lparr>stats_pos = (stats_pos st)(fst (samples ! i) \<mapsto> counter_inc cp p),
                stats_gap = (stats_gap st)(fst (samples ! i) \<mapsto> counter_inc cg g)\<rparr>, False) \<and>
            counter_total (counter_inc cp p) = counter_total cp + 1 \<and>
            counter_total (counter_inc cg g) = counter_total cg + 1)"
proof (cases "tag_loop (check_tags samples) (take 60 (upper (strip line)))")
  case None
  then have "\<forall>s \<in> set samples. str_find (take 60 (upper (strip line))) (upper (snd s)) = - 1
                           \<or> 10 < str_find (take 60 (upper (strip line))) (upper (snd s))"
    by (simp add: tag_loop_check_tags tag_loop_None_iff)
  with scan_read_miss [OF None] show ?thesis by blast
next
  case (Some hit)
  let ?R = "take 60 (upper (strip line))"
  obtain tg p where hit: "hit = (tg, p)" by (cases hit)
  with Some have tl: "tag_loop (check_tags samples) ?R = Some (tg, p)" by simp
  then have "tag_loop (map (\<lambda>s. upper (snd s)) samples) ?R = Some (tg, p)"
    by (simp add: tag_loop_check_tags)
  from tag_loop_first_index [OF this] obtain k where
    k: "k < length samples" "upper (snd (samples ! k)) = tg" "p = str_find ?R tg" "0 \<le> p" "p \<le> 10"
       "\<forall>j < k. str_find ?R (upper (snd (samples ! j))) = - 1
              \<or> 10 < str_find ?R (upper (snd (samples ! j)))"
    by blast
  from hit_counters [OF assms tl] obtain sid cp cg where
    b: "map_of (tag_to_sample samples) tg = Some sid"
       "stats_pos st sid = Some cp" "stats_gap st sid = Some cg"
    by blast
  from tag_to_sample_last_carrier [OF b(1)] obtain i where
    i: "i < length samples" "upper (snd (samples ! i)) = tg" "fst (samples ! i) = sid"
       "\<forall>j < length samples. i < j \<longrightarrow> upper (snd (samples ! j)) \<noteq> tg"
    by blast
  define g where "g = gap_key (take 30 (drop (nat p + length tg) ?R)) seeds"
  have r: "scan_read (tag_to_sample samples) seeds line st =
          (\<lparr>stats_pos = (stats_pos st)(sid \<mapsto> counter_inc cp p),
            stats_gap = (stats_gap st)(sid \<mapsto> counter_inc cg g)\<rparr>, False)"
    unfolding g_def by (rule scan_read_at_hit [OF tl b])
  have c: "0 \<le> g \<or> g = - 1" unfolding g_def using gap_key_range by blast
  have d: "counter_total (counter_inc cp p) = counter_total cp + 1"
          "counter_total (counter_inc cg g) = counter_total cg + 1"
    by (simp_all add: counter_total_inc)
  have e: "distinct (map (\<lambda>s. upper (snd s)) samples) \<longrightarrow> i = k"
  proof
    assume dist: "distinct (map (\<lambda>s. upper (snd s)) samples)"
    from i(1,2) k(1,2) have "map (\<lambda>s. upper (snd s)) samples ! i = map (\<lambda>s. upper (snd s)) samples ! k"
      by simp
    moreover from i(1) k(1) have "i < length (map (\<lambda>s. upper (snd s)) samples)"
      "k < length (map (\<lambda>s. upper (snd s)) samples)" by simp_all
    ultimately show "i = k" using dist nth_eq_iff_index_eq by blast
  qed
  have "k < length samples \<and>
        (\<forall>j < k. str_find ?R (upper (snd (samples ! j))) = - 1
              \<or> 10 < str_find ?R (upper (snd (samples ! j)))) \<and>
        p = str_find ?R (upper (snd (samples ! k))) \<and> 0 \<le> p \<and> p \<le> 10 \<and>
        i < length samples \<and> upper (snd (samples ! i)) = upper (snd (samples ! k)) \<and>
        (\<forall>j < length samples. i < j \<longrightarrow> upper (snd (samples ! j)) \<noteq> upper (snd (samples ! k))) \<and>
        (distinct (map (\<lambda>s. upper (snd s)) samples) \<longrightarrow> i = k) \<and>
        stats_pos st (fst (samples ! i)) = Some cp \<and> stats_gap st (fst (samples ! i)) = Some cg \<and>
        (0 \<le> g \<or> g = - 1) \<and>
        scan_read (tag_to_sample samples) seeds line st =
          (\<lparr>stats_pos = (stats_pos st)(fst (samples ! i) \<mapsto> counter_inc cp p),
            stats_gap = (stats_gap st)(fst (samples ! i) \<mapsto> counter_inc cg g)\<rparr>, False) \<and>
        counter_total (counter_inc cp p) = counter_total cp + 1 \<and>
        counter_total (counter_inc cg g) = counter_total cg + 1"
    using k i b(2,3) r c d e by simp
  then show ?thesis by blast
qed

lemma menu_skip:
  "\<forall>x \<in> set junk. x \<noteq> ''1'' \<and> x \<noteq> ''2'' \<and> x \<noteq> ''3'' \<Longrightarrow>
     menu samples (map Typed junk @ rest) = menu samples rest"
  by (induction junk) auto

lemma main_strategies_enabled:
  assumes "AUTO_DIAGNOSE cfg = ''TRUE''" and "RUN_MODE cfg \<noteq> ''1''"
  shows "main_strategies cfg inputs samples r1 r2 =
           (case menu samples inputs of
              Inl e \<Rightarrow> Inl e
            | Inr d \<Rightarrow> Inr (Some (map (\<lambda>s. (fst s, snd s, dict_get d (fst s) ''universal'')) samples)))"
proof -
  from scan_raw_data_unfold [of samples r1 r2 cfg inputs] obtain c st2 data where
    h: "scan_raw_data cfg inputs samples r1 r2 =
         (if RUN_MODE cfg = ''1''
          then Inr \<lparr>scanned = c, final_stats = st2, scan_report = data, decision = None\<rparr>
          else (case menu samples inputs of
                  Inl e \<Rightarrow> Inl e
                | Inr d \<Rightarrow> Inr \<lparr>scanned = c, final_stats = st2, scan_report = data,
                                decision = Some d\<rparr>))"
    by blast
  with assms show ?thesis by (simp add: main_strategies_def split: sum.splits)
qed

lemma main_strategies_choice:
  assumes "AUTO_DIAGNOSE cfg = ''TRUE''" and "RUN_MODE cfg \<noteq> ''1''"
    and "\<forall>x \<in> set junk. x \<noteq> ''1'' \<and> x \<noteq> ''2'' \<and> x \<noteq> ''3''"
    and "menu samples (Typed c # rest) = Inr (strategy_dict samples mode)"
  shows "main_strategies cfg (map Typed junk @ Typed c # rest) samples r1 r2 =
           Inr (Some (map (\<lambda>s. (fst s, snd s, mode)) samples))"
  using assms(4) menu_skip [OF assms(3), of samples "Typed c # rest"]
  by (simp add: main_strategies_enabled [OF assms(1,2)] dict_get_strategy)

text \<open>
  Claim C8. When diagnosis is disabled (\<open>AUTO_DIAGNOSE\<close> is not \<open>TRUE\<close>), every sample is
  processed in mode \<open>strict\<close>, whatever is typed. When it is enabled and the run mode is
  not 1, the menu reads lines until one of them is \<open>1\<close>, \<open>2\<close> or \<open>3\<close>, and every sample is
  processed in the mode so chosen: \<open>strict\<close> for \<open>1\<close>, \<open>universal\<close> for \<open>2\<close>, \<open>rescue\<close> for
  \<open>3\<close>; the lines after the choice are not read. If the input ends before a choice,
  \<open>EOFError\<close> is raised, and a keyboard interrupt before a choice exits with status 0. In
  run mode 1, \<open>main\<close> returns after the scan and no mode is assigned. Whenever modes are
  assigned, all samples have the same one of the three modes.
\<close>

theorem uniform_mode:
  "(AUTO_DIAGNOSE cfg \<noteq> ''TRUE'' \<longrightarrow>
      main_strategies cfg inputs samples r1 r2 =
        Inr (Some (map (\<lambda>s. (fst s, snd s, ''strict'')) samples))) \<and>
   (AUTO_DIAGNOSE cfg = ''TRUE'' \<and> RUN_MODE cfg \<noteq> ''1'' \<and>
    (\<forall>x \<in> set junk. x \<noteq> ''1'' \<and> x \<noteq> ''2'' \<and> x \<noteq> ''3'') \<longrightarrow>
      main_strategies cfg (map Typed junk @ Typed ''1'' # rest) samples r1 r2 =
        Inr (Some (map (\<lambda>s. (fst s, snd s, ''strict'')) samples)) \<and>
      main_strategies cfg (map Typed junk @ Typed ''2'' # rest) samples r1 r2 =
        Inr (Some (map (\<lambda>s. (fst s, snd s, ''universal'')) samples)) \<and>
      main_strategies cfg (map Typed junk @ Typed ''3'' # rest) samples r1 r2 =
        Inr (Some (map (\<lambda>s. (fst s, snd s, ''rescue'')) samples)) \<and>
      main_strategies cfg (map Typed junk) samples r1 r2 = Inl EOFError \<and>
      main_strategies cfg (map Typed junk @ Interrupt # rest) samples r1 r2 = Inl (SystemExit 0)) \<and>
   (AUTO_DIAGNOSE cfg = ''TRUE'' \<and> RUN_MODE cfg = ''1'' \<longrightarrow>
      main_strategies cfg inputs samples r1 r2 = Inr None) \<and>
   (AUTO_DIAGNOSE cfg = ''TRUE'' \<longrightarrow>
      (\<forall>assigned. main_strategies cfg inputs samples r1 r2 = Inr (Some assigned) \<longrightarrow>
         (\<exists>mode \<in> {''strict'', ''universal'', ''rescue''}.
            assigned = map (\<lambda>s. (fst s, snd s, mode)) samples)))"
proof (intro conjI impI allI)
  assume "AUTO_DIAGNOSE cfg \<noteq> ''TRUE''"
  then show "main_strategies cfg inputs samples r1 r2 =
        Inr (Some (map (\<lambda>s. (fst s, snd s, ''strict'')) samples))"
    by (simp add: main_strategies_def dict_get_strategy)
next
  assume a: "AUTO_DIAGNOSE cfg = ''TRUE'' \<and> RUN_MODE cfg \<noteq> ''1'' \<and>
    (\<forall>x \<in> set junk. x \<noteq> ''1'' \<and> x \<noteq> ''2'' \<and> x \<noteq> ''3'')"
  then have e: "AUTO_DIAGNOSE cfg = ''TRUE''" "RUN_MODE cfg \<noteq> ''1''"
    and j: "\<forall>x \<in> set junk. x \<noteq> ''1'' \<and> x \<noteq> ''2'' \<and> x \<noteq> ''3''" by simp_all
  show "main_strategies cfg (map Typed junk @ Typed ''1'' # rest) samples r1 r2 =
        Inr (Some (map (\<lambda>s. (fst s, snd s, ''strict'')) samples))"
    by (rule main_strategies_choice [OF e j]) simp
  show "main_strategies cfg (map Typed junk @ Typed ''2'' # rest) samples r1 r2 =
        Inr (Some (map (\<lambda>s. (fst s, snd s, ''universal'')) samples))"
    by (rule main_strategies_choice [OF e j]) simp
  show "main_strategies cfg (map Typed junk @ Typed ''3'' # rest) samples r1 r2 =
        Inr (Some (map (\<lambda>s. (fst s, snd s, ''rescue'')) samples))"
    by (rule main_strategies_choice [OF e j]) simp
  show "main_strategies cfg (map Typed junk) samples r1 r2 = Inl EOFError"
    using menu_skip [OF j, of samples "[]"] by (simp add: main_strategies_enabled [OF e])
  show "main_strategies cfg (map Typed junk @ Interrupt # rest) samples r1 r2 = Inl (SystemExit 0)"
    using menu_skip [OF j, of samples "Interrupt # rest"]
    by (simp add: main_strategies_enabled [OF e])
next
  assume a: "AUTO_DIAGNOSE cfg = ''TRUE'' \<and> RUN_MODE cfg = ''1''"
  from scan_raw_data_unfold [of samples r1 r2 cfg inputs] obtain c st2 data where
    "scan_raw_data cfg inputs samples r1 r2 =
         (if RUN_MODE cfg = ''1''
          then Inr \<lparr>scanned = c, final_stats = st2, scan_report = data, decision = None\<rparr>
          else (case menu samples inputs of
                  Inl e \<Rightarrow> Inl e
                | Inr d \<Rightarrow> Inr \<lparr>scanned = c, final_stats = st2, scan_report = data,
                                decision = Some d\<rparr>))"
    by blast
  with a show "main_strategies cfg inputs samples r1 r2 = Inr None"
    by (simp add: main_strategies_def)
next
  fix assigned
  assume a: "AUTO_DIAGNOSE cfg = ''TRUE''"
    and m: "main_strategies cfg inputs samples r1 r2 = Inr (Some assigned)"
  have n1: "RUN_MODE cfg \<noteq> ''1''"
  proof
    assume r: "RUN_MODE cfg = ''1''"
    from scan_raw_data_unfold [of samples r1 r2 cfg inputs] obtain c st2 data where
      "scan_raw_data cfg inputs samples r1 r2 =
         (if RUN_MODE cfg = ''1''
          then Inr \<lparr>scanned = c, final_stats = st2, scan_report = data, decision = None\<rparr>
          else (case menu samples inputs of
                  Inl e \<Rightarrow> Inl e
                | Inr d \<Rightarrow> Inr \<lparr>scanned = c, final_stats = st2, scan_report = data,
                                decision = Some d\<rparr>))"
      by blast
    with a r have "main_strategies cfg inputs samples r1 r2 = Inr None"
      by (simp add: main_strategies_def)
    with m show False by simp
  qed
  from m obtain d where d: "menu samples inputs = Inr d"
    and asg: "assigned = map (\<lambda>s. (fst s, snd s, dict_get d (fst s) ''universal'')) samples"
    by (auto simp: main_strategies_enabled [OF a n1] split: sum.splits)
  from menu_result [OF d] obtain mode where
    mode: "mode \<in> {''strict'', ''universal'', ''rescue''}" "d = strategy_dict samples mode" by blast
  from asg mode(2) have "assigned = map (\<lambda>s. (fst s, snd s, mode)) samples"
    by (simp add: dict_get_strategy)
  with mode(1) show "\<exists>mode \<in> {''strict'', ''universal'', ''rescue''}.
            assigned = map (\<lambda>s. (fst s, snd s, mode)) samples" by blast
qed

text \<open>
  On the normal path the seven outputs of the model are rounded and truncated field by
  field.
\<close>

lemma consult_brain_normal_path_example:
  "consult_brain quiet_console
     (Stored (Inr (\<lambda>rows. Inr [[0.123, 0.256, 7.9, 1.25, 60.2, 25, 12.5]]))) 0.91 0 2 250
     = Inr (0.12, 0.26, 7, 1.2, 60, 25, 12)"
  by (simp add: consult_brain_def brain_inference_def say_def quiet_console_def
      py_round_def py_int_def Let_def)

text \<open>
  Claim C1, as the code has it. For every input \<open>(q30, shift, gap, length)\<close>, on a console
  that accepts the log lines: when the brain file is missing, \<open>consult_brain\<close> returns
  exactly the default prescription \<open>(0.15, 0.2, 10, 2.0, 50, 20, 10)\<close>; when loading the
  artifact or running inference raises an exception of class \<open>Exception\<close>, it returns
  exactly that prescription and no exception reaches the caller; an exception outside
  \<open>Exception\<close> (\<open>KeyboardInterrupt\<close>, \<open>SystemExit\<close>) raised by loading or by inference is not
  caught by \<open>except Exception\<close> and reaches the caller.
\<close>

theorem consult_brain_fallback:
  assumes "\<forall>kind. console kind = None"
  shows "consult_brain console Missing q30 shift gap len = Inr (0.15, 0.2, 10, 2.0, 50, 20, 10) \<and>
         (\<forall>e. consult_brain console (Stored (Inl e)) q30 shift gap len =
                (if is_Exception e then Inr (0.15, 0.2, 10, 2.0, 50, 20, 10) else Inl e)) \<and>
         (\<forall>model e. model [[q30, of_int shift, of_int gap, of_int len]] = Inl e \<longrightarrow>
                consult_brain console (Stored (Inr model)) q30 shift gap len =
                  (if is_Exception e then Inr (0.15, 0.2, 10, 2.0, 50, 20, 10) else Inl e))"
  using assms by (simp add: consult_brain_def brain_inference_def say_def)




section \<open>The properties at concrete inputs\<close>

text \<open>The statement above at a concrete input.\<close>

theorem short_primers_only_sentinel_witness:
  "make_seeds [''ACGTACGTACG'', []] = [] \<and>
   have_counters ex_samples ex_state \<and>
   stats_gap (fst (scan_read (tag_to_sample ex_samples) (make_seeds [''ACGTACGTACG'', []])
                     ex_line ex_state)) ''S1'' = Some [(- 1, 1)]"
proof -
  have short: "\<forall>p \<in> set [''ACGTACGTACG'', []]. length p < 12" by simp
  have h: "have_counters ex_samples ex_state"
    unfolding ex_state_def by (rule init_have_counters)
  have t: "tag_loop (check_tags ex_samples) (take 60 (upper (strip ex_line))) = Some (''ACGTAC'', 0)"
    by code_simp
  from short_primers_only_sentinel [of "[''ACGTACGTACG'', []]" ex_samples] short h t
  have e: "make_seeds [''ACGTACGTACG'', []] = []"
    and "\<exists>sid cg. map_of (tag_to_sample ex_samples) ''ACGTAC'' = Some sid \<and>
           stats_gap ex_state sid = Some cg \<and>
           stats_gap (fst (scan_read (tag_to_sample ex_samples) (make_seeds [''ACGTACGTACG'', []])
                             ex_line ex_state)) =
             (stats_gap ex_state)(sid \<mapsto> counter_inc cg (- 1))"
    by blast+
  then obtain sid cg where
    b: "map_of (tag_to_sample ex_samples) ''ACGTAC'' = Some sid" "stats_gap ex_state sid = Some cg"
       "stats_gap (fst (scan_read (tag_to_sample ex_samples) (make_seeds [''ACGTACGTACG'', []])
                             ex_line ex_state)) =
             (stats_gap ex_state)(sid \<mapsto> counter_inc cg (- 1))"
    by blast
  have "map_of (tag_to_sample ex_samples) ''ACGTAC'' = Some ''S1''" by code_simp
  with b(1) have sid: "sid = ''S1''" by simp
  have "stats_gap ex_state ''S1'' = Some []" by code_simp
  with b(2) sid have "cg = []" by simp
  with b(3) sid have "stats_gap (fst (scan_read (tag_to_sample ex_samples)
        (make_seeds [''ACGTACGTACG'', []]) ex_line ex_state)) ''S1'' = Some [(- 1, 1)]"
    by simp
  with e h show ?thesis by blast
qed

text \<open>
  Claim C2 as first stated says that a raw offset below \<open>-5\<close> leaves no trace in the gap
  histogram. A read whose only seed match is seed B directly after the tag has raw offset
  \<open>-6\<close>, and the scan records the sentinel \<open>-1\<close> for it.
\<close>

theorem gap_recorded_for_offset_below_minus_five:
  "raw_offset ''CCCCCCGGG'' (''AAAAAA'', ''CCCCCC'') = Some (- 6) \<and>
   stats_gap
      (snd (scan_file_structure (Some [''@r1'', ''ACGTACCCCCCCGGG''])
             ex_samples [''AAAAAACCCCCCGG''] ex_state)) ''S1'' = Some [(- 1, 1)]"
  by code_simp

text \<open>
  A raw offset of exactly \<open>-1\<close> (seed B found five bases into the window) collides with the
  "not found" value of \<open>gap_idx\<close>: the test \<open>gap_idx != -1\<close> rejects it, so it is recorded
  as the sentinel and not as 0.
\<close>

lemma raw_offset_minus_one_recorded_as_sentinel:
  "raw_offset ''TTTTTCCCCCCGG'' (''AAAAAA'', ''CCCCCC'') = Some (- 1) \<and>
   stats_gap
      (snd (scan_file_structure (Some [''@r1'', ''ACGTACTTTTTCCCCCCGG''])
             ex_samples [''AAAAAACCCCCCGG''] ex_state)) ''S1'' = Some [(- 1, 1)]"
  by code_simp

text \<open>The statement above at a concrete input.\<close>

theorem gap_normalisation_witness:
  "have_counters ex_samples ex_state \<and>
   tag_loop (check_tags ex_samples) (take 60 (upper (strip ex_line))) = Some (''ACGTAC'', 0) \<and>
   skipped ex_window (''GGGGGG'', ''TTTTTT'') \<and>
   raw_offset ex_window (''AAAAAA'', ''CCCCCC'') = Some (- 3) \<and>
   stats_gap (fst (scan_read (tag_to_sample ex_samples)
                     [(''GGGGGG'', ''TTTTTT''), (''AAAAAA'', ''CCCCCC'')] ex_line ex_state)) ''S1''
     = Some [(0, 1)] \<and>
   stats_gap (fst (scan_read (tag_to_sample ex_samples)
                     [(''GGGGGG'', ''TTTTTT'')] ex_line ex_state)) ''S1''
     = Some [(- 1, 1)]"
proof -
  have h: "have_counters ex_samples ex_state"
    unfolding ex_state_def by (rule init_have_counters)
  have t: "tag_loop (check_tags ex_samples) (take 60 (upper (strip ex_line))) = Some (''ACGTAC'', 0)"
    by code_simp
  have w: "ex_window = take 30 (drop (nat 0 + length ''ACGTAC'') (take 60 (upper (strip ex_line))))"
    by code_simp
  have sk: "skipped ex_window (''GGGGGG'', ''TTTTTT'')" by code_simp
  then have pre: "\<forall>s \<in> set [(''GGGGGG'', ''TTTTTT'')]. skipped ex_window s" by simp
  have raw: "raw_offset ex_window (''AAAAAA'', ''CCCCCC'') = Some (- 3)" by code_simp
  from gap_normalisation [OF h t w pre] obtain sid cg where
    b: "map_of (tag_to_sample ex_samples) ''ACGTAC'' = Some sid" "stats_gap ex_state sid = Some cg"
    and low: "\<And>seed post g. raw_offset ex_window seed = Some g \<Longrightarrow> - 5 \<le> g \<Longrightarrow> g \<le> - 2 \<Longrightarrow>
         stats_gap (fst (scan_read (tag_to_sample ex_samples)
              ([(''GGGGGG'', ''TTTTTT'')] @ seed # post) ex_line ex_state)) =
           (stats_gap ex_state)(sid \<mapsto> counter_inc cg 0)"
    and none: "stats_gap (fst (scan_read (tag_to_sample ex_samples)
              [(''GGGGGG'', ''TTTTTT'')] ex_line ex_state)) =
           (stats_gap ex_state)(sid \<mapsto> counter_inc cg (- 1))"
    by blast
  have "map_of (tag_to_sample ex_samples) ''ACGTAC'' = Some ''S1''" by code_simp
  with b(1) have sid: "sid = ''S1''" by simp
  have "stats_gap ex_state ''S1'' = Some []" by code_simp
  with b(2) sid have cg: "cg = []" by simp
  from low [OF raw, of "[]"] sid cg
  have r1: "stats_gap (fst (scan_read (tag_to_sample ex_samples)
                     [(''GGGGGG'', ''TTTTTT''), (''AAAAAA'', ''CCCCCC'')] ex_line ex_state)) ''S1''
     = Some [(0, 1)]" by simp
  from none sid cg
  have r2: "stats_gap (fst (scan_read (tag_to_sample ex_samples)
                     [(''GGGGGG'', ''TTTTTT'')] ex_line ex_state)) ''S1'' = Some [(- 1, 1)]"
    by simp
  from h t sk raw r1 r2 show ?thesis by blast
qed

text \<open>The statement above at a concrete input.\<close>

theorem zero_matches_report_witness:
  "RUN_MODE (ex_cfg\<lparr>RUN_MODE := ''1''\<rparr>) = ''1'' \<and>
   (\<exists>r. scan_raw_data (ex_cfg\<lparr>RUN_MODE := ''1''\<rparr>) [] ex_samples None
           (Some [''@r'', ''NNTTGGAAAAAAC'']) = Inr r \<and>
        (\<exists>e. scan_report r ''S1'' = Some e \<and> tag_shift_mode e = 0 \<and> primer_gap_mode e = - 1))"
proof -
  have m: "RUN_MODE (ex_cfg\<lparr>RUN_MODE := ''1''\<rparr>) = ''1''" by simp
  have no: "\<forall>line \<in> set (file_lines None) \<union> set (file_lines (Some [''@r'', ''NNTTGGAAAAAAC''])).
              \<not> hits_sample ex_samples ''S1'' line"
    by code_simp
  have s: "(''S1'', ''ACGTAC'') \<in> set ex_samples" by (simp add: ex_samples_def)
  from zero_matches_report [of "ex_cfg\<lparr>RUN_MODE := ''1''\<rparr>" ex_samples "[]" None
      "Some [''@r'', ''NNTTGGAAAAAAC'']"] m
  obtain r where
    r: "scan_raw_data (ex_cfg\<lparr>RUN_MODE := ''1''\<rparr>) [] ex_samples None
           (Some [''@r'', ''NNTTGGAAAAAAC'']) = Inr r"
    and all: "\<forall>s \<in> set ex_samples.
         stats_pos (final_stats r) (fst s) = Some [] \<or>
         (\<forall>line \<in> set (file_lines None) \<union> set (file_lines (Some [''@r'', ''NNTTGGAAAAAAC''])).
            \<not> hits_sample ex_samples (fst s) line) \<longrightarrow>
           (\<exists>e. scan_report r (fst s) = Some e \<and> tag_shift_mode e = 0 \<and> primer_gap_mode e = - 1
               \<and> raw_pos_counts e = [] \<and> raw_gap_counts e = [])"
    by blast
  from all s no have "\<exists>e. scan_report r ''S1'' = Some e \<and> tag_shift_mode e = 0 \<and>
      primer_gap_mode e = - 1" by fastforce
  with m r show ?thesis by blast
qed

text \<open>
  Claim C3 as first stated says that the negatives are as many as the positives. With 21
  input sequences there are 20 positive rows and 21 negative rows.
\<close>

theorem equal_negatives_counterexample:
  "length (take (top_limit (replicate 21 ''ACGTA'')) (X_features (replicate 21 ''ACGTA''))) = 20 \<and>
   length (X_noise ex_rnd (replicate 21 ''ACGTA'')) = 21"
  by (simp add: top_limit_def X_features_def X_noise_def length_noise_seqs)

text \<open>The statement above at a concrete input.\<close>

theorem path_a_training_set_witness:
  "y_train ex_rnd (replicate 25 ''ACGTA'') = replicate 20 1 @ replicate 25 0 \<and>
   length (noise_seqs ex_rnd (length (replicate 25 ''ACGTA''))) = 25 \<and>
   length (take (top_limit (replicate 25 ''ACGTA'')) (X_features (replicate 25 ''ACGTA'')))
     \<noteq> length (X_noise ex_rnd (replicate 25 ''ACGTA''))"
  using path_a_training_set [of ex_rnd "replicate 25 ''ACGTA''"] by simp

text \<open>The statement above at a concrete input.\<close>

theorem small_input_raises_witness:
  "0 < length [''ACGTA'', ''GGCCA''] \<and> length [''ACGTA'', ''GGCCA''] < 20 \<and>
   run_hybrid_engine True ex_ml ex_rnd [''ACGTA'', ''GGCCA''] [''a'', ''b''] = Inl ValueError"
proof -
  have h: "0 < length [''ACGTA'', ''GGCCA'']" "length [''ACGTA'', ''GGCCA''] < 20" by simp_all
  from small_input_raises [OF h, of ex_rnd ex_ml "[''a'', ''b'']"] h show ?thesis by blast
qed

text \<open>The statement above at a concrete input.\<close>

theorem empty_input_empty_result_witness:
  "run_ai_classification True ex_ml ex_rnd NoFile = Inr Map.empty \<and>
   run_ai_classification True ex_ml ex_rnd (Lines [''ACGT'', []]) = Inr Map.empty \<and>
   run_ai_classification True ex_ml ex_rnd (Lines []) = Inr Map.empty \<and>
   run_hybrid_engine False ex_ml ex_rnd [''ACGTA''] [''a''] = Inr Map.empty \<and>
   run_ai_classification False ex_ml ex_rnd (Lines [''>a'', ''ACGTA'']) = Inr Map.empty"
proof -
  have n: "\<forall>line \<in> set [''ACGT'', []]. take 1 line \<noteq> ''>''" by simp
  have e: "\<forall>line \<in> set ([]::string list). take 1 line \<noteq> ''>''" by simp
  from empty_input_empty_result [of True ex_ml ex_rnd "[''ACGT'', []]"] n
  have a: "run_ai_classification True ex_ml ex_rnd NoFile = Inr Map.empty"
       "run_ai_classification True ex_ml ex_rnd (Lines [''ACGT'', []]) = Inr Map.empty"
    by blast+
  from empty_input_empty_result [of True ex_ml ex_rnd "[]"] e
  have b: "run_ai_classification True ex_ml ex_rnd (Lines []) = Inr Map.empty" by blast
  from empty_input_empty_result [of True ex_ml ex_rnd "[''>a'', ''ACGTA'']" "[''ACGTA'']" "[''a'']"]
  have c: "run_hybrid_engine False ex_ml ex_rnd [''ACGTA''] [''a''] = Inr Map.empty"
       "run_ai_classification False ex_ml ex_rnd (Lines [''>a'', ''ACGTA'']) = Inr Map.empty"
    by blast+
  from a b c show ?thesis by blast
qed

text \<open>The statement above at a concrete input.\<close>

theorem consult_brain_fallback_witness:
  "consult_brain quiet_console Missing 0.91 0 2 250 = Inr (0.15, 0.2, 10, 2.0, 50, 20, 10) \<and>
   consult_brain quiet_console (Stored (Inl OtherError)) 0.91 0 2 250 =
     Inr (0.15, 0.2, 10, 2.0, 50, 20, 10) \<and>
   consult_brain quiet_console (Stored (Inr ex_failing_model)) 0.91 0 2 250 =
     Inr (0.15, 0.2, 10, 2.0, 50, 20, 10) \<and>
   consult_brain quiet_console (Stored (Inl (SystemExit 1))) 0.91 0 2 250 = Inl (SystemExit 1)"
proof -
  have q: "\<forall>kind. quiet_console kind = None" by (simp add: quiet_console_def)
  note t = consult_brain_fallback [OF q, of "0.91" 0 2 250]
  from t have a: "consult_brain quiet_console Missing 0.91 0 2 250 =
      Inr (0.15, 0.2, 10, 2.0, 50, 20, 10)" by blast
  from t have "consult_brain quiet_console (Stored (Inl OtherError)) 0.91 0 2 250 =
      (if is_Exception OtherError then Inr (0.15, 0.2, 10, 2.0, 50, 20, 10) else Inl OtherError)"
    by blast
  then have b: "consult_brain quiet_console (Stored (Inl OtherError)) 0.91 0 2 250 =
      Inr (0.15, 0.2, 10, 2.0, 50, 20, 10)" by (simp add: is_Exception_def)
  have m: "ex_failing_model [[0.91, of_int 0, of_int 2, of_int 250]] = Inl ValueError"
    by (simp add: ex_failing_model_def)
  from t m have "consult_brain quiet_console (Stored (Inr ex_failing_model)) 0.91 0 2 250 =
      (if is_Exception ValueError then Inr (0.15, 0.2, 10, 2.0, 50, 20, 10) else Inl ValueError)"
    by blast
  then have c: "consult_brain quiet_console (Stored (Inr ex_failing_model)) 0.91 0 2 250 =
      Inr (0.15, 0.2, 10, 2.0, 50, 20, 10)" by (simp add: is_Exception_def)
  from t have "consult_brain quiet_console (Stored (Inl (SystemExit 1))) 0.91 0 2 250 =
      (if is_Exception (SystemExit 1) then Inr (0.15, 0.2, 10, 2.0, 50, 20, 10)
       else Inl (SystemExit 1))"
    by blast
  then have d: "consult_brain quiet_console (Stored (Inl (SystemExit 1))) 0.91 0 2 250 =
      Inl (SystemExit 1)" by (simp add: is_Exception_def)
  from a b c d show ?thesis by blast
qed

text \<open>
  Claim C1 as first stated says that no exception of loading escapes. A
  \<open>KeyboardInterrupt\<close> raised while the artifact is loaded is not an \<open>Exception\<close>: it passes
  the handler and reaches the caller, and no prescription is returned.
\<close>

theorem interrupt_escapes_counterexample:
  "consult_brain quiet_console (Stored (Inl KeyboardInterrupt)) 0.91 0 2 250 = Inl KeyboardInterrupt"
  by (simp add: consult_brain_def brain_inference_def is_Exception_def)

text \<open>
  The two log calls outside the \<open>try\<close> block are not protected: on a console that raises,
  the missing-file branch and the handler raise.
\<close>

lemma log_failure_escapes:
  "consult_brain broken_console Missing 0.91 0 2 250 = Inl OtherError \<and>
   consult_brain broken_console (Stored (Inl ValueError)) 0.91 0 2 250 = Inl OtherError"
  by (simp add: consult_brain_def brain_inference_def is_Exception_def say_def broken_console_def)

text \<open>
  Claim C5 as first stated credits the sample of the first tag in input-list order. With
  the samples \<open>(S1, ACGT)\<close>, \<open>(S2, TTGG)\<close>, \<open>(S3, acgt)\<close>, a read that starts with \<open>ACGT\<close>
  matches the tag of S1 at offset 0, and is counted for S3; the histogram of S1 stays empty.
\<close>

theorem last_carrier_counterexample:
  "str_find (take 60 (upper (strip dup_line))) (upper ''ACGT'') = 0 \<and>
   stats_pos (fst (scan_read (tag_to_sample dup_samples) [] dup_line dup_state)) ''S1'' = Some [] \<and>
   stats_pos (fst (scan_read (tag_to_sample dup_samples) [] dup_line dup_state)) ''S3'' =
     Some [(0, 1)]"
  by code_simp

text \<open>The statement above at a concrete input.\<close>

theorem scan_read_one_sample_witness:
  "have_counters dup_samples dup_state \<and>
   stats_pos (fst (scan_read (tag_to_sample dup_samples) [(''AAAAAA'', ''CCCCCC'')]
                     dup_line dup_state)) ''S3'' = Some [(0, 1)] \<and>
   stats_pos (fst (scan_read (tag_to_sample dup_samples) [(''AAAAAA'', ''CCCCCC'')]
                     dup_line dup_state)) ''S1'' = Some [] \<and>
   (\<exists>g. (0 \<le> g \<or> g = - 1) \<and>
       stats_gap (fst (scan_read (tag_to_sample dup_samples) [(''AAAAAA'', ''CCCCCC'')]
                     dup_line dup_state)) ''S3'' = Some [(g, 1)])"
proof -
  let ?R = "take 60 (upper (strip dup_line))"
  let ?res = "scan_read (tag_to_sample dup_samples) [(''AAAAAA'', ''CCCCCC'')] dup_line dup_state"
  have h: "have_counters dup_samples dup_state"
    unfolding dup_state_def by (rule init_have_counters)
  have u: "upper ''ACGT'' = ''ACGT''" "upper ''TTGG'' = ''TTGG''" "upper ''acgt'' = ''ACGT''"
    by code_simp+
  have f0: "str_find ?R ''ACGT'' = 0" by code_simp
  have n: "dup_samples ! 0 = (''S1'', ''ACGT'')" "dup_samples ! 1 = (''S2'', ''TTGG'')"
    "dup_samples ! 2 = (''S3'', ''acgt'')" "length dup_samples = 3"
    by (simp_all add: dup_samples_def)
  have s1: "(''S1'', ''ACGT'') \<in> set dup_samples" by (simp add: dup_samples_def)
  have hitS1: "\<not> (str_find ?R (upper (snd (''S1'', ''ACGT''))) = - 1
         \<or> 10 < str_find ?R (upper (snd (''S1'', ''ACGT''))))"
    using u(1) f0 by simp
  from s1 hitS1 have "\<not> (\<forall>s \<in> set dup_samples. str_find ?R (upper (snd s)) = - 1
                           \<or> 10 < str_find ?R (upper (snd s)))"
    by blast
  with scan_read_one_sample [OF h, of dup_line "[(''AAAAAA'', ''CCCCCC'')]"]
  obtain k i p cp cg g where
    a: "k < length dup_samples"
       "\<forall>j < k. str_find ?R (upper (snd (dup_samples ! j))) = - 1
              \<or> 10 < str_find ?R (upper (snd (dup_samples ! j)))"
       "p = str_find ?R (upper (snd (dup_samples ! k)))"
       "i < length dup_samples"
       "upper (snd (dup_samples ! i)) = upper (snd (dup_samples ! k))"
       "\<forall>j < length dup_samples. i < j \<longrightarrow>
           upper (snd (dup_samples ! j)) \<noteq> upper (snd (dup_samples ! k))"
       "stats_pos dup_state (fst (dup_samples ! i)) = Some cp"
       "stats_gap dup_state (fst (dup_samples ! i)) = Some cg"
       "0 \<le> g \<or> g = - 1"
       "?res = (\<lparr>stats_pos = (stats_pos dup_state)(fst (dup_samples ! i) \<mapsto> counter_inc cp p),
                stats_gap = (stats_gap dup_state)(fst (dup_samples ! i) \<mapsto> counter_inc cg g)\<rparr>,
               False)"
    by blast
  have k0: "k = 0"
  proof (rule ccontr)
    assume "k \<noteq> 0"
    then have "0 < k" by simp
    with a(2) have "str_find ?R (upper (snd (dup_samples ! 0))) = - 1
              \<or> 10 < str_find ?R (upper (snd (dup_samples ! 0)))" by blast
    with n(1) u(1) f0 show False by simp
  qed
  with a(3,5,6) n(1) u(1) f0 have p0: "p = 0"
    and ti: "upper (snd (dup_samples ! i)) = ''ACGT''"
    and later: "\<forall>j < length dup_samples. i < j \<longrightarrow> upper (snd (dup_samples ! j)) \<noteq> ''ACGT''"
    by simp_all
  from a(4) n(4) have "i = 0 \<or> i = 1 \<or> i = 2" by arith
  then have i2: "i = 2"
  proof (elim disjE)
    assume "i = 0"
    with later n(4) have "upper (snd (dup_samples ! 2)) \<noteq> ''ACGT''" by simp
    with n(3) u(3) show ?thesis by simp
  next
    assume "i = 1"
    with ti n(2) u(2) show ?thesis by simp
  next
    assume "i = 2"
    then show ?thesis .
  qed
  have e: "stats_pos dup_state ''S3'' = Some []" "stats_gap dup_state ''S3'' = Some []"
    by code_simp+
  with a(7,8) i2 n(3) have c: "cp = []" "cg = []" by simp_all
  from a(10) i2 n(3) c p0 have
    r1: "stats_pos (fst ?res) ''S3'' = Some [(0, 1)]"
    and r3: "stats_gap (fst ?res) ''S3'' = Some [(g, 1)]"
    and r2: "stats_pos (fst ?res) ''S1'' = stats_pos dup_state ''S1''"
    by simp_all
  have "stats_pos dup_state ''S1'' = Some []" by code_simp
  with r2 have r2': "stats_pos (fst ?res) ''S1'' = Some []" by simp
  from h r1 r2' r3 a(9) show ?thesis by blast
qed

text \<open>The statement above at a concrete input.\<close>

theorem uniform_mode_witness:
  "main_strategies (ex_cfg\<lparr>AUTO_DIAGNOSE := ''FALSE''\<rparr>) [Typed ''3''] ex_samples None None =
     Inr (Some [(''S1'', ''ACGTAC'', ''strict''), (''S2'', ''ttgg'', ''strict'')]) \<and>
   main_strategies ex_cfg [Typed ''x'', Typed ''1'', Typed ''3''] ex_samples None None =
     Inr (Some [(''S1'', ''ACGTAC'', ''strict''), (''S2'', ''ttgg'', ''strict'')]) \<and>
   main_strategies ex_cfg [Typed ''x'', Typed ''2'', Typed ''3''] ex_samples None None =
     Inr (Some [(''S1'', ''ACGTAC'', ''universal''), (''S2'', ''ttgg'', ''universal'')]) \<and>
   main_strategies ex_cfg [Typed ''x'', Typed ''3'', Typed ''1''] ex_samples None None =
     Inr (Some [(''S1'', ''ACGTAC'', ''rescue''), (''S2'', ''ttgg'', ''rescue'')]) \<and>
   main_strategies ex_cfg [Typed ''x''] ex_samples None None = Inl EOFError"
proof -
  have a: "AUTO_DIAGNOSE (ex_cfg\<lparr>AUTO_DIAGNOSE := ''FALSE''\<rparr>) \<noteq> ''TRUE''" by simp
  from uniform_mode [of "ex_cfg\<lparr>AUTO_DIAGNOSE := ''FALSE''\<rparr>" "[Typed ''3'']" ex_samples None None] a
  have s: "main_strategies (ex_cfg\<lparr>AUTO_DIAGNOSE := ''FALSE''\<rparr>) [Typed ''3''] ex_samples None None =
     Inr (Some [(''S1'', ''ACGTAC'', ''strict''), (''S2'', ''ttgg'', ''strict'')])"
    by (simp add: ex_samples_def)
  have b: "AUTO_DIAGNOSE ex_cfg = ''TRUE'' \<and> RUN_MODE ex_cfg \<noteq> ''1'' \<and>
      (\<forall>x \<in> set [''x'']. x \<noteq> ''1'' \<and> x \<noteq> ''2'' \<and> x \<noteq> ''3'')"
    by (simp add: ex_cfg_def)
  from uniform_mode [of ex_cfg _ ex_samples None None "[''x'']" "[Typed ''3'']"] b
  have c1: "main_strategies ex_cfg (map Typed [''x''] @ Typed ''1'' # [Typed ''3'']) ex_samples None None =
        Inr (Some (map (\<lambda>s. (fst s, snd s, ''strict'')) ex_samples))"
    and c2: "main_strategies ex_cfg (map Typed [''x''] @ Typed ''2'' # [Typed ''3'']) ex_samples None None =
        Inr (Some (map (\<lambda>s. (fst s, snd s, ''universal'')) ex_samples))"
    and c4: "main_strategies ex_cfg (map Typed [''x'']) ex_samples None None = Inl EOFError"
    by blast+
  from uniform_mode [of ex_cfg _ ex_samples None None "[''x'']" "[Typed ''1'']"] b
  have c3: "main_strategies ex_cfg (map Typed [''x''] @ Typed ''3'' # [Typed ''1'']) ex_samples None None =
        Inr (Some (map (\<lambda>s. (fst s, snd s, ''rescue'')) ex_samples))"
    by blast
  from s c1 c2 c3 c4 show ?thesis by (simp add: ex_samples_def)
qed



end
